theory Spec2Isabelle
  imports Main
begin

section \<open>JavaScript values of the bunyan command-line tool\<close>

text \<open>
  The log viewer of \<^verbatim>\<open>lib/bunyan.mjs\<close> works on the values that \<^verbatim>\<open>JSON.parse\<close> returns.
  A value is one of the six JSON shapes. An object is the list of its own properties in
  the order in which JavaScript enumerates them (\<^verbatim>\<open>Object.keys\<close>, \<^verbatim>\<open>for ... in\<close>).
  Strings are lists of code units; the model covers the code units below 256. Numbers are
  the integers that a double holds exactly and JavaScript prints with plain decimal
  digits, which is what the record fields \<^verbatim>\<open>v\<close>, \<^verbatim>\<open>level\<close> and \<^verbatim>\<open>pid\<close> carry, and the two
  infinities, which are what \<^verbatim>\<open>JSON.parse\<close> returns for a number literal too large for a
  double, such as \<^verbatim>\<open>1e999\<close> (\<open>JInfinity True\<close> is the negative one). Numbers with a fraction
  are outside the model. The JavaScript value \<^verbatim>\<open>undefined\<close> is \<open>None\<close> of \<open>json option\<close>.
\<close>

datatype json =
    JNull
  | JBool bool
  | JNum int
  | JInfinity bool
  | JStr string
  | JArr "json list"
  | JObj "(string \<times> json) list"

type_synonym jsval = "json option"
type_synonym jobject = "(string \<times> json) list"

datatype error = TypeError | PredicateError string | UnknownOutputMode

definition LF :: char where "LF = CHR 0x0A"
definition CR :: char where "CR = CHR 0x0D"
definition DQ :: char where "DQ = CHR 0x22"
definition BSL :: char where "BSL = CHR 0x5C"

subsection \<open>Truthiness, \<^verbatim>\<open>typeof\<close> and string conversion\<close>

fun truthy :: "jsval \<Rightarrow> bool" where
  "truthy None = False"
| "truthy (Some JNull) = False"
| "truthy (Some (JBool b)) = b"
| "truthy (Some (JNum n)) = (n \<noteq> 0)"
| "truthy (Some (JInfinity _)) = True"
| "truthy (Some (JStr s)) = (s \<noteq> [])"
| "truthy (Some (JArr _)) = True"
| "truthy (Some (JObj _)) = True"

datatype jstype = T_undefined | T_object | T_boolean | T_number | T_string

fun typeof :: "jsval \<Rightarrow> jstype" where
  "typeof None = T_undefined"
| "typeof (Some JNull) = T_object"
| "typeof (Some (JBool _)) = T_boolean"
| "typeof (Some (JNum _)) = T_number"
| "typeof (Some (JInfinity _)) = T_number"
| "typeof (Some (JStr _)) = T_string"
| "typeof (Some (JArr _)) = T_object"
| "typeof (Some (JObj _)) = T_object"

text \<open>\<^verbatim>\<open>x == null\<close> holds for \<^verbatim>\<open>null\<close> and \<^verbatim>\<open>undefined\<close> only.\<close>

fun eq_null :: "jsval \<Rightarrow> bool" where
  "eq_null None = True"
| "eq_null (Some JNull) = True"
| "eq_null (Some _) = False"

function digits :: "nat \<Rightarrow> string" where
  "digits n = (if n < 10 then [char_of (48 + n)] else digits (n div 10) @ [char_of (48 + n mod 10)])"
  by pat_completeness auto
termination
  by (relation "measure id") auto

definition show_int :: "int \<Rightarrow> string" where
  "show_int i = (if i < 0 then CHR ''-'' # digits (nat (- i)) else digits (nat i))"

text \<open>\<^verbatim>\<open>Array.prototype.join\<close> on strings.\<close>

fun join :: "string \<Rightarrow> string list \<Rightarrow> string" where
  "join sep [] = []"
| "join sep [x] = x"
| "join sep (x # y # ys) = x @ sep @ join sep (y # ys)"

text \<open>
  ToString of a value, as string concatenation with \<^verbatim>\<open>+\<close> applies it. An array joins
  its elements with a comma, writing \<^verbatim>\<open>null\<close> elements as the empty string.
\<close>

fun to_str :: "json \<Rightarrow> string" where
  "to_str JNull = ''null''"
| "to_str (JBool b) = (if b then ''true'' else ''false'')"
| "to_str (JNum n) = show_int n"
| "to_str (JInfinity neg) = (if neg then ''-Infinity'' else ''Infinity'')"
| "to_str (JStr s) = s"
| "to_str (JArr xs) = join '','' (map (\<lambda>x. if x = JNull then [] else to_str x) xs)"
| "to_str (JObj _) = ''[object Object]''"

definition to_string :: "jsval \<Rightarrow> string" where
  "to_string v = (case v of None \<Rightarrow> ''undefined'' | Some x \<Rightarrow> to_str x)"

subsection \<open>Objects: property order, assignment and deletion\<close>

text \<open>
  JavaScript enumerates the own properties of an object with the array indices first, in
  ascending numeric order, and the other names after them in the order of their creation.
  An array index is the canonical decimal form of an integer below 4294967295, that is \<open>2^32 - 1\<close>.
\<close>

definition is_digit :: "char \<Rightarrow> bool" where
  "is_digit c = (48 \<le> (of_char c :: nat) \<and> (of_char c :: nat) \<le> 57)"

fun nat_of_digits :: "nat \<Rightarrow> string \<Rightarrow> nat" where
  "nat_of_digits acc [] = acc"
| "nat_of_digits acc (c # cs) = nat_of_digits (10 * acc + (of_char c - 48)) cs"

definition is_array_index :: "string \<Rightarrow> bool" where
  "is_array_index s =
     (s \<noteq> [] \<and> list_all is_digit s \<and> (s = ''0'' \<or> hd s \<noteq> CHR ''0'')
      \<and> nat_of_digits 0 s < 4294967295)"

definition has_key :: "string \<Rightarrow> (string \<times> 'a) list \<Rightarrow> bool" where
  "has_key k kvs = (k \<in> set (map fst kvs))"

definition before_index :: "string \<Rightarrow> string \<times> 'a \<Rightarrow> bool" where
  "before_index k e = (is_array_index (fst e) \<and> nat_of_digits 0 (fst e) < nat_of_digits 0 k)"

text \<open>\<^verbatim>\<open>obj[k] = v\<close>: an existing property keeps its place, a new one is enumerated last,
  or among the array indices when its name is one.\<close>

definition obj_set :: "string \<Rightarrow> 'a \<Rightarrow> (string \<times> 'a) list \<Rightarrow> (string \<times> 'a) list" where
  "obj_set k v kvs =
     (if has_key k kvs then map (\<lambda>e. if fst e = k then (k, v) else e) kvs
      else if is_array_index k
        then takeWhile (before_index k) kvs @ [(k, v)] @ dropWhile (before_index k) kvs
      else kvs @ [(k, v)])"

text \<open>\<^verbatim>\<open>delete obj[k]\<close>.\<close>

definition obj_delete :: "string \<Rightarrow> (string \<times> 'a) list \<Rightarrow> (string \<times> 'a) list" where
  "obj_delete k kvs = filter (\<lambda>e. fst e \<noteq> k) kvs"

text \<open>
  The own enumerable properties of a value, as \<^verbatim>\<open>Object.keys\<close> lists them: the members of
  an object, the elements of an array and the characters of a string under their indices,
  nothing for a number or a boolean.
\<close>

fun own_props :: "json \<Rightarrow> jobject" where
  "own_props (JObj kvs) = kvs"
| "own_props (JArr xs) = zip (map digits [0..<length xs]) xs"
| "own_props (JStr s) = zip (map digits [0..<length s]) (map (\<lambda>c. JStr [c]) s)"
| "own_props _ = []"

text \<open>
  \<^verbatim>\<open>x.name\<close> for the property names the renderer reads (\<^verbatim>\<open>file\<close>, \<^verbatim>\<open>headers\<close>,
  \<^verbatim>\<open>stack\<close>, ...): none of them is a property of a prototype, so the value is the own
  property or \<^verbatim>\<open>undefined\<close>. The renderer reads them from truthy values only.
\<close>

definition get_prop :: "jsval \<Rightarrow> string \<Rightarrow> jsval" where
  "get_prop v k = (case v of None \<Rightarrow> None | Some x \<Rightarrow> map_of (own_props x) k)"

subsection \<open>\<^verbatim>\<open>JSON.stringify\<close>\<close>

definition hex_digit :: "nat \<Rightarrow> char" where
  "hex_digit n = (if n < 10 then char_of (48 + n) else char_of (87 + n))"

text \<open>QuoteJSONString: the two-character escapes, \<^verbatim>\<open>\u00XX\<close> for the other control
  characters, every other code unit as it is.\<close>

definition quote_char :: "char \<Rightarrow> string" where
  "quote_char c =
     (if c = DQ then [BSL, DQ]
      else if c = BSL then [BSL, BSL]
      else if c = CHR 0x08 then [BSL, CHR ''b'']
      else if c = CHR 0x0C then [BSL, CHR ''f'']
      else if c = LF then [BSL, CHR ''n'']
      else if c = CR then [BSL, CHR ''r'']
      else if c = CHR 0x09 then [BSL, CHR ''t'']
      else if (of_char c :: nat) < 32
        then [BSL, CHR ''u'', CHR ''0'', CHR ''0'',
              hex_digit ((of_char c :: nat) div 16), hex_digit ((of_char c :: nat) mod 16)]
      else [c])"

definition quote :: "string \<Rightarrow> string" where
  "quote s = DQ # concat (map quote_char s) @ [DQ]"

text \<open>
  SerializeJSONProperty with the gap \<open>gap\<close> at the current indentation \<open>ind\<close>. A number
  that is not finite is written as \<^verbatim>\<open>null\<close>. With an
  empty gap the members follow each other after a comma; otherwise each member is on a
  line of its own, indented by one more gap.
\<close>

fun ser :: "string \<Rightarrow> string \<Rightarrow> json \<Rightarrow> string" where
  "ser gap ind JNull = ''null''"
| "ser gap ind (JBool b) = (if b then ''true'' else ''false'')"
| "ser gap ind (JNum n) = show_int n"
| "ser gap ind (JInfinity _) = ''null''"
| "ser gap ind (JStr s) = quote s"
| "ser gap ind (JArr xs) =
     (if xs = [] then ''[]''
      else if gap = [] then ''['' @ join '','' (map (ser gap (ind @ gap)) xs) @ '']''
      else ''['' @ [LF] @ (ind @ gap)
           @ join ('','' @ [LF] @ (ind @ gap)) (map (ser gap (ind @ gap)) xs)
           @ [LF] @ ind @ '']'')"
| "ser gap ind (JObj kvs) =
     (if kvs = [] then ''{}''
      else if gap = []
        then ''{'' @ join '','' (map (\<lambda>e. quote (fst e) @ '':'' @ ser gap (ind @ gap) (snd e)) kvs) @ ''}''
      else ''{'' @ [LF] @ (ind @ gap)
           @ join ('','' @ [LF] @ (ind @ gap))
               (map (\<lambda>e. quote (fst e) @ '': '' @ ser gap (ind @ gap) (snd e)) kvs)
           @ [LF] @ ind @ ''}'')"

text \<open>\<^verbatim>\<open>JSON.stringify(value, null, indent)\<close>: the gap is \<open>indent\<close> spaces, ten at most.\<close>

definition JSON_stringify :: "json \<Rightarrow> nat \<Rightarrow> string" where
  "JSON_stringify v n = ser (replicate (min 10 n) CHR '' '') [] v"

subsection \<open>Lines, indentation and colours\<close>

fun cons_first :: "char \<Rightarrow> string list \<Rightarrow> string list" where
  "cons_first c [] = [[c]]"
| "cons_first c (l # ls) = (c # l) # ls"

text \<open>
  \<^verbatim>\<open>s.split(/\r\n|\n/)\<close>, which is also \<^verbatim>\<open>s.split(/\r?\n/)\<close>: a line feed ends a line, and
  a carriage return right before it belongs to the terminator.
\<close>

fun split_lines :: "string \<Rightarrow> string list" where
  "split_lines [] = [[]]"
| "split_lines [c] = (if c = LF then [[], []] else [[c]])"
| "split_lines (c # d # ds) =
     (if c = LF then [] # split_lines (d # ds)
      else if c = CR \<and> d = LF then [] # split_lines ds
      else cons_first c (split_lines (d # ds)))"

text \<open>\<^verbatim>\<open>indent(s)\<close>; a value without a \<^verbatim>\<open>split\<close> method raises.\<close>

definition indent_str :: "string \<Rightarrow> string" where
  "indent_str s = ''    '' @ join ([LF] @ ''    '') (split_lines s)"

definition indent :: "jsval \<Rightarrow> error + string" where
  "indent v = (case v of Some (JStr s) \<Rightarrow> Inr (indent_str s) | _ \<Rightarrow> Inl TypeError)"

definition colors :: "string \<Rightarrow> (nat \<times> nat) option" where
  "colors = map_of
     [(''bold'', (1, 22)), (''italic'', (3, 23)), (''underline'', (4, 24)),
      (''inverse'', (7, 27)), (''white'', (37, 39)), (''grey'', (90, 39)),
      (''black'', (30, 39)), (''blue'', (34, 39)), (''cyan'', (36, 39)),
      (''green'', (32, 39)), (''magenta'', (35, 39)), (''red'', (31, 39)),
      (''yellow'', (33, 39))]"

text \<open>The source writes the escape as \<^verbatim>\<open>'\x33['\<close>, which is the digit 3 and a bracket.\<close>

definition stylizeWithColor :: "jsval \<Rightarrow> string option \<Rightarrow> jsval" where
  "stylizeWithColor str color =
     (if \<not> truthy str then Some (JStr [])
      else case (case color of None \<Rightarrow> None | Some c \<Rightarrow> colors c) of
             Some codes \<Rightarrow>
               Some (JStr (''3['' @ digits (fst codes) @ ''m'' @ to_string str
                           @ ''3['' @ digits (snd codes) @ ''m''))
           | None \<Rightarrow> str)"

definition stylizeWithoutColor :: "jsval \<Rightarrow> string option \<Rightarrow> jsval" where
  "stylizeWithoutColor str color = str"


section \<open>Options and the runtime\<close>

datatype output_mode = OM_LONG | OM_JSON | OM_INSPECT | OM_SIMPLE | OM_SHORT | OM_BUNYAN

datatype time_format = TIME_UTC | TIME_LOCAL

text \<open>
  The prototype of an object: \<^verbatim>\<open>Object.prototype\<close>, which every object that \<^verbatim>\<open>JSON.parse\<close>
  returns and every fresh \<^verbatim>\<open>{}\<close> has, or what an assignment to \<^verbatim>\<open>__proto__\<close> has put in its
  place: \<^verbatim>\<open>null\<close>, or an object or array, given here by its value.
\<close>

datatype prototype = Object_prototype | Null_prototype | Prototype json

text \<open>
  The value that a condition is called on: \<^verbatim>\<open>null\<close>, an array, or an object with its own
  properties and its prototype. These are the values that \<^verbatim>\<open>objCopy\<close> returns; the record
  itself is the object of its properties with the prototype \<^verbatim>\<open>Object.prototype\<close>.
\<close>

datatype receiver = Null_receiver | Array_receiver "json list" | Object_receiver jobject prototype

text \<open>
  A \<^verbatim>\<open>-c\<close> condition, called on such a value: it returns a value, of which the filter
  reads the truthiness, or it throws.
\<close>

type_synonym predicate = "receiver \<Rightarrow> error + bool"

text \<open>
  The object that \<^verbatim>\<open>parseArgv\<close> returns. \<^verbatim>\<open>opts.level\<close> is \<^verbatim>\<open>null\<close> or a number,
  \<^verbatim>\<open>opts.condFuncs\<close> and \<^verbatim>\<open>opts.condVm\<close> are absent or arrays. \<^verbatim>\<open>outputMode\<close> is one of
  the six constants (\<^verbatim>\<open>parseArgv\<close> rejects every other name), so the \<^verbatim>\<open>default\<close> branch of
  the switch in \<^verbatim>\<open>emitRecord\<close> has no input.
\<close>

record opts =
  outputMode :: output_mode
  jsonIndent :: nat
  opt_level :: "int option"
  strict :: bool
  timeFormat :: time_format
  opt_color :: bool
  condFuncs :: "predicate list option"
  condVm :: "predicate list option"

text \<open>
  What the program takes from Node.js and is not code of the repository: the parser
  (\<^verbatim>\<open>JSON.parse\<close> on a text starting with a brace returns an object or throws, which is
  \<open>None\<close>), the time value of \<^verbatim>\<open>new Date(x)\<close> (\<open>None\<close> for an invalid date),
  \<^verbatim>\<open>util.format\<close>, \<^verbatim>\<open>util.inspect\<close>, the table \<^verbatim>\<open>http.STATUS_CODES\<close>, and the
  comparison of the number that a string converts to with a number (both false when the
  string converts to \<^verbatim>\<open>NaN\<close>).
\<close>

record platform =
  JSON_parse :: "string \<Rightarrow> jobject option"
  Date_value :: "jsval \<Rightarrow> int option"
  util_format :: "string \<Rightarrow> jsval list \<Rightarrow> string"
  util_inspect :: "jobject \<Rightarrow> string"
  STATUS_CODES :: "string \<Rightarrow> jsval"
  string_lt_number :: "string \<Rightarrow> int \<Rightarrow> bool"
  string_gt_number :: "string \<Rightarrow> int \<Rightarrow> bool"

definition upperNameFromLevel :: "string \<Rightarrow> string option" where
  "upperNameFromLevel = map_of
     [(''10'', ''TRACE''), (''20'', ''DEBUG''), (''30'', ''INFO''),
      (''40'', ''WARN''), (''50'', ''ERROR''), (''60'', ''FATAL'')]"

definition upperPaddedNameFromLevel :: "string \<Rightarrow> string option" where
  "upperPaddedNameFromLevel = map_of
     [(''10'', ''TRACE''), (''20'', ''DEBUG''), (''30'', '' INFO''),
      (''40'', '' WARN''), (''50'', ''ERROR''), (''60'', ''FATAL'')]"

definition colorFromLevel :: "string \<Rightarrow> string option" where
  "colorFromLevel = map_of
     [(''10'', ''white''), (''20'', ''yellow''), (''30'', ''cyan''),
      (''40'', ''magenta''), (''50'', ''red''), (''60'', ''inverse'')]"

section \<open>The record classifier's validity test\<close>

text \<open>\<^verbatim>\<open>rec.k\<close> on a record.\<close>

definition field :: "jobject \<Rightarrow> string \<Rightarrow> jsval" where
  "field r k = map_of r k"

definition isValidRecord :: "jobject \<Rightarrow> bool" where
  "isValidRecord r =
     (if eq_null (field r ''v'') \<or> eq_null (field r ''level'') \<or> eq_null (field r ''name'')
         \<or> eq_null (field r ''hostname'') \<or> eq_null (field r ''pid'')
         \<or> eq_null (field r ''time'') \<or> eq_null (field r ''msg'')
      then False else True)"

section \<open>The renderer \<^verbatim>\<open>emitRecord\<close>\<close>

definition or_else :: "jsval \<Rightarrow> jsval \<Rightarrow> jsval" where
  "or_else a b = (if truthy a then a else b)"

definition header_lines :: "jsval \<Rightarrow> string" where
  "header_lines v =
     (case v of None \<Rightarrow> []
      | Some x \<Rightarrow> join [LF] (map (\<lambda>e. fst e @ '': '' @ to_str (snd e)) (own_props x)))"

text \<open>\<^verbatim>\<open>typeof (b) === 'object' ? JSON.stringify(b, null, 2) : b\<close>, then used in a
  concatenation.\<close>

definition body_text :: "json \<Rightarrow> string" where
  "body_text b = (if typeof (Some b) = T_object then JSON_stringify b 2 else to_str b)"

definition is_space :: "char \<Rightarrow> bool" where
  "is_space c = ((of_char c :: nat) \<in> {9, 10, 11, 12, 13, 32, 160})"

definition trimRight :: "string \<Rightarrow> string" where
  "trimRight s = rev (dropWhile is_space (rev s))"

text \<open>Copying the remaining fields of a nested object to the top level:
  \<^verbatim>\<open>Object.keys(o).forEach(function (k) { rec[prefix + k] = o[k]; })\<close>.\<close>

fun expose :: "string \<Rightarrow> jobject \<Rightarrow> jobject \<Rightarrow> jobject" where
  "expose prefix [] r = r"
| "expose prefix (e # es) r = expose prefix es (obj_set (prefix @ fst e) (snd e) r)"

text \<open>The \<^verbatim>\<open>req\<close> block. The state is the record and the details collected so far.\<close>

definition req_block :: "platform \<Rightarrow> jobject \<times> string list \<Rightarrow> jobject \<times> string list" where
  "req_block pf st =
     (let r = fst st; details = snd st in
      if truthy (field r ''req'') \<and> typeof (field r ''req'') = T_object then
        (let req = own_props (the (field r ''req''));
             r = obj_delete ''req'' r;
             headers = field req ''headers'';
             headers =
               (if \<not> truthy headers then Some (JStr [])
                else if typeof headers = T_string then Some (JStr ([LF] @ to_string headers))
                else if typeof headers = T_object then Some (JStr ([LF] @ header_lines headers))
                else headers);
             s = util_format pf ''%s %s HTTP/%s%s''
                   [field req ''method'', field req ''url'',
                    or_else (field req ''httpVersion'') (Some (JStr ''1.1'')), headers];
             req = obj_delete ''url'' req;
             req = obj_delete ''method'' req;
             req = obj_delete ''httpVersion'' req;
             req = obj_delete ''headers'' req;
             s = (if truthy (field req ''body'')
                  then s @ [LF, LF] @ body_text (the (field req ''body'')) else s);
             req = (if truthy (field req ''body'') then obj_delete ''body'' req else req);
             s = (if truthy (field req ''trailers'')
                     \<and> string_gt_number pf
                          (join '','' (map fst (own_props (the (field req ''trailers''))))) 0
                  then s @ [LF] @ header_lines (field req ''trailers'') else s);
             req = obj_delete ''trailers'' req;
             details = details @ [indent_str s]
         in (expose ''req.'' req r, details))
      else (r, details))"

definition client_req_block :: "platform \<Rightarrow> jobject \<times> string list \<Rightarrow> jobject \<times> string list" where
  "client_req_block pf st =
     (let r = fst st; details = snd st in
      if truthy (field r ''client_req'') \<and> typeof (field r ''client_req'') = T_object then
        (let client_req = own_props (the (field r ''client_req''));
             r = obj_delete ''client_req'' r;
             headers = field client_req ''headers'';
             client_req = obj_delete ''headers'' client_req;
             s = util_format pf ''%s %s HTTP/%s%s''
                   [field client_req ''method'', field client_req ''url'',
                    or_else (field client_req ''httpVersion'') (Some (JStr ''1.1'')),
                    Some (JStr (if truthy headers then [LF] @ header_lines headers else []))];
             client_req = obj_delete ''method'' client_req;
             client_req = obj_delete ''url'' client_req;
             client_req = obj_delete ''httpVersion'' client_req;
             s = (if truthy (field client_req ''body'')
                  then s @ [LF, LF] @ body_text (the (field client_req ''body'')) else s);
             client_req = (if truthy (field client_req ''body'')
                           then obj_delete ''body'' client_req else client_req)
         in (expose ''client_req.'' client_req r, details @ [indent_str s]))
      else (r, details))"


text \<open>
  The nested function \<^verbatim>\<open>_res\<close>, called for \<^verbatim>\<open>rec.res\<close> and for \<^verbatim>\<open>rec.client_res\<close>; for
  both it writes the remaining fields back under the prefix \<^verbatim>\<open>res.\<close>
\<close>

definition body_nonempty :: "json \<Rightarrow> bool" where
  "body_nonempty b =
     (if typeof (Some b) = T_object then 0 < length (JSON_stringify b 2)
      else (case b of JStr t \<Rightarrow> 0 < length t | _ \<Rightarrow> False))"

definition res_fn :: "platform \<Rightarrow> json \<Rightarrow> jobject \<times> string list \<Rightarrow> jobject \<times> string list" where
  "res_fn pf resv st =
     (let r = fst st; details = snd st; res = own_props resv;
          h1 = field res ''header''; h2 = field res ''headers'';
          use1 = (truthy h1 \<and> (typeof h1 = T_string \<or> typeof h1 = T_object));
          use2 = (\<not> use1 \<and> truthy h2 \<and> (typeof h2 = T_string \<or> typeof h2 = T_object));
          headers = (if use1 then h1 else if use2 then h2 else None);
          res = (if use1 then obj_delete ''header'' res
                 else if use2 then obj_delete ''headers'' res else res);
          headersStr = (case headers of None \<Rightarrow> []
                        | Some (JStr h) \<Rightarrow> trimRight h
                        | Some x \<Rightarrow> header_lines (Some x));
          headersHaveStatusLine = (case headers of Some (JStr h) \<Rightarrow> take 5 (trimRight h) = ''HTTP/''
                                   | _ \<Rightarrow> False);
          s = (if \<not> headersHaveStatusLine \<and> field res ''statusCode'' \<noteq> None
               then util_format pf (''HTTP/1.1 %s %s'' @ [LF])
                      [field res ''statusCode'',
                       STATUS_CODES pf (to_string (field res ''statusCode''))]
               else []);
          res = obj_delete ''statusCode'' res;
          s = s @ headersStr;
          s = (case field res ''body'' of None \<Rightarrow> trimRight s
               | Some b \<Rightarrow> if body_nonempty b then s @ [LF, LF] @ body_text b else s);
          res = (if field res ''body'' \<noteq> None then obj_delete ''body'' res else res);
          s = (if truthy (field res ''trailer'') then s @ [LF] @ to_string (field res ''trailer'')
               else s);
          res = obj_delete ''trailer'' res;
          details = (if s \<noteq> [] then details @ [indent_str s] else details)
      in (expose ''res.'' res r, details))"

definition res_block :: "platform \<Rightarrow> string \<Rightarrow> jobject \<times> string list \<Rightarrow> jobject \<times> string list" where
  "res_block pf k st =
     (if truthy (field (fst st) k) \<and> typeof (field (fst st) k) = T_object
      then (let st' = res_fn pf (the (field (fst st) k)) st in (obj_delete k (fst st'), snd st'))
      else st)"

definition err_block :: "jobject \<times> string list \<Rightarrow> jobject \<times> string list" where
  "err_block st =
     (let r = fst st; details = snd st in
      if truthy (field r ''err'') \<and> truthy (get_prop (field r ''err'') ''stack'') then
        (let err = own_props (the (field r ''err''));
             details = details @ [indent_str (to_string (field err ''stack''))];
             err = obj_delete ''message'' err;
             err = obj_delete ''name'' err;
             err = obj_delete ''stack'' err;
             r = expose ''err.'' err r
         in (obj_delete ''err'' r, details))
      else (r, details))"

text \<open>
  The loop over the fields that are left. The state is the pair of the extras and the
  details.
\<close>

definition leftover_field :: "string \<times> json \<Rightarrow> string list \<times> string list \<Rightarrow> string list \<times> string list" where
  "leftover_field e st =
     (let key = fst e;
          stringified = (typeof (Some (snd e)) \<noteq> T_string);
          value = (case snd e of JStr t \<Rightarrow> t | x \<Rightarrow> JSON_stringify x 2)
      in if LF \<in> set value \<or> 50 < length value
           then (fst st, snd st @ [indent_str (key @ '': '' @ value)])
         else if \<not> stringified \<and> (CHR '' '' \<in> set value \<or> length value = 0)
           then (fst st @ [key @ ''='' @ JSON_stringify (JStr value) 0], snd st)
         else (fst st @ [key @ ''='' @ value], snd st))"

fun leftover_loop :: "jobject \<Rightarrow> string list \<times> string list \<Rightarrow> string list \<times> string list" where
  "leftover_loop [] st = st"
| "leftover_loop (e # es) st = leftover_loop es (leftover_field e st)"

definition substr11 :: "jsval \<Rightarrow> error + jsval" where
  "substr11 v = (case v of Some (JStr t) \<Rightarrow> Inr (Some (JStr (drop 11 t))) | _ \<Rightarrow> Inl TypeError)"

text \<open>\<^verbatim>\<open>rec.msg.indexOf('\n') !== -1\<close>: a string and an array have the method.\<close>

definition msg_has_newline :: "jsval \<Rightarrow> error + bool" where
  "msg_has_newline v =
     (case v of Some (JStr t) \<Rightarrow> Inr (LF \<in> set t)
      | Some (JArr xs) \<Rightarrow> Inr (JStr [LF] \<in> set xs)
      | _ \<Rightarrow> Inl TypeError)"

text \<open>
  The first part of the long and short modes: the fields of the head line, each read and
  then deleted from the record.
\<close>

record head =
  h_time :: jsval
  h_level :: jsval
  h_nameStr :: jsval
  h_hostname :: jsval
  h_src :: jsval
  h_extras :: "string list"

definition long_head ::
  "platform \<Rightarrow> bool \<Rightarrow> opts \<Rightarrow> (jsval \<Rightarrow> string option \<Rightarrow> jsval) \<Rightarrow> jobject \<Rightarrow> error + (jobject \<times> head)" where
  "long_head pf short opts stylize r0 =
     (let r = obj_delete ''v'' r0 in
      case (if \<not> short \<and> timeFormat opts = TIME_UTC
              then Inr (Some (JStr (''['' @ to_string (field r ''time'') @ '']'')))
            else if timeFormat opts = TIME_UTC then substr11 (field r ''time'')
            else Inr None) of
        Inl e \<Rightarrow> Inl e
      | Inr time0 \<Rightarrow>
         (let time = stylize time0 (Some ''none'');
              r = obj_delete ''time'' r;
              nameStr = field r ''name'';
              r = obj_delete ''name'' r;
              nameStr = (if truthy (field r ''component'')
                         then Some (JStr (to_string nameStr @ ''/'' @ to_string (field r ''component'')))
                         else nameStr);
              r = obj_delete ''component'' r;
              nameStr = (if \<not> short
                         then Some (JStr (to_string nameStr @ ''/'' @ to_string (field r ''pid'')))
                         else nameStr);
              r = obj_delete ''pid'' r;
              level = (case upperPaddedNameFromLevel (to_string (field r ''level'')) of
                         Some n \<Rightarrow> Some (JStr n)
                       | None \<Rightarrow> Some (JStr (''LVL'' @ to_string (field r ''level''))));
              level = (if opt_color opts
                       then stylize level (colorFromLevel (to_string (field r ''level'')))
                       else level);
              r = obj_delete ''level'' r;
              src = (if truthy (field r ''src'') \<and> truthy (get_prop (field r ''src'') ''file'')
                     then (let s = field r ''src'' in
                           stylize (Some (JStr
                             (if truthy (get_prop s ''func'')
                              then util_format pf '' (%s:%d in %s)''
                                     [get_prop s ''file'', get_prop s ''line'', get_prop s ''func'']
                              else util_format pf '' (%s:%d)''
                                     [get_prop s ''file'', get_prop s ''line''])))
                             (Some ''green''))
                     else Some (JStr []));
              r = obj_delete ''src'' r;
              hostname = field r ''hostname'';
              r = obj_delete ''hostname'' r;
              extras = (if truthy (field r ''req_id'')
                        then [''req_id='' @ to_string (field r ''req_id'')] else []);
              r = obj_delete ''req_id'' r
          in Inr (r, \<lparr>h_time = time, h_level = level, h_nameStr = nameStr,
                       h_hostname = hostname, h_src = src, h_extras = extras\<rparr>)))"

text \<open>The message: on the head line, or in the details when it has a line break.\<close>

definition long_msg ::
  "(jsval \<Rightarrow> string option \<Rightarrow> jsval) \<Rightarrow> jobject \<Rightarrow> error + (jobject \<times> string \<times> string list)" where
  "long_msg stylize r =
     (case msg_has_newline (field r ''msg'') of
        Inl e \<Rightarrow> Inl e
      | Inr nl \<Rightarrow>
         if nl then
           (case indent (stylize (field r ''msg'') (Some ''cyan'')) of
              Inl e \<Rightarrow> Inl e
            | Inr d \<Rightarrow> Inr (obj_delete ''msg'' r, [], [d]))
         else Inr (obj_delete ''msg'' r,
                   '' '' @ to_string (stylize (field r ''msg'') (Some ''cyan'')), []))"

text \<open>The structured fields, in the order of the source.\<close>

definition long_blocks :: "platform \<Rightarrow> jobject \<times> string list \<Rightarrow> jobject \<times> string list" where
  "long_blocks pf st =
     err_block (res_block pf ''client_res'' (res_block pf ''res''
       (client_req_block pf (req_block pf st))))"

definition emitRecord_long ::
  "platform \<Rightarrow> bool \<Rightarrow> jobject \<Rightarrow> string \<Rightarrow> opts \<Rightarrow> (jsval \<Rightarrow> string option \<Rightarrow> jsval)
     \<Rightarrow> error + (jobject \<times> string)" where
  "emitRecord_long pf short r0 ln opts stylize =
     (if \<not> isValidRecord r0 then Inr (r0, ln @ [LF])
      else case long_head pf short opts stylize r0 of
        Inl e \<Rightarrow> Inl e
      | Inr (r1, h) \<Rightarrow>
         (case long_msg stylize r1 of
            Inl e \<Rightarrow> Inl e
          | Inr (r2, onelineMsg, details0) \<Rightarrow>
             (let st = long_blocks pf (r2, details0);
                  r = fst st;
                  ed = leftover_loop r (h_extras h, snd st);
                  extras = stylize (Some (JStr (if fst ed \<noteq> []
                             then '' ('' @ join '', '' (fst ed) @ '')'' else []))) (Some ''none'');
                  details = stylize (Some (JStr (if snd ed \<noteq> []
                              then join ([LF] @ ''    --'' @ [LF]) (snd ed) @ [LF] else [])))
                              (Some ''none'')
              in Inr (r,
                   if \<not> short
                   then util_format pf (''%s %s: %s on %s%s:%s%s'' @ [LF] @ ''%s'')
                          [h_time h, h_level h, h_nameStr h,
                           or_else (h_hostname h) (Some (JStr ''<no-hostname>'')),
                           h_src h, Some (JStr onelineMsg), extras, details]
                   else util_format pf (''%s %s %s:%s%s'' @ [LF] @ ''%s'')
                          [h_time h, h_level h, h_nameStr h,
                           Some (JStr onelineMsg), extras, details]))))"

text \<open>
  \<^verbatim>\<open>emitRecord(rec, line, opts, stylize)\<close>. The result is the record as the call leaves
  it and the string handed to \<^verbatim>\<open>emit\<close>, or the exception.
\<close>

definition emitRecord ::
  "platform \<Rightarrow> jobject \<Rightarrow> string \<Rightarrow> opts \<Rightarrow> (jsval \<Rightarrow> string option \<Rightarrow> jsval)
     \<Rightarrow> error + (jobject \<times> string)" where
  "emitRecord pf r ln opts stylize =
     (case outputMode opts of
        OM_SHORT \<Rightarrow> emitRecord_long pf True r ln opts stylize
      | OM_LONG \<Rightarrow> emitRecord_long pf False r ln opts stylize
      | OM_INSPECT \<Rightarrow> Inr (r, util_inspect pf r @ [LF])
      | OM_BUNYAN \<Rightarrow> Inr (r, JSON_stringify (JObj r) 0 @ [LF])
      | OM_JSON \<Rightarrow> Inr (r, JSON_stringify (JObj r) (jsonIndent opts) @ [LF])
      | OM_SIMPLE \<Rightarrow>
          if \<not> isValidRecord r then Inr (r, ln @ [LF])
          else Inr (r, util_format pf (''%s - %s'' @ [LF])
                 [(case upperNameFromLevel (to_string (field r ''level'')) of
                     Some n \<Rightarrow> Some (JStr n)
                   | None \<Rightarrow> Some (JStr (''LVL'' @ to_string (field r ''level'')))),
                  field r ''msg'']))"


section \<open>The filter \<^verbatim>\<open>filterRecord\<close>\<close>

text \<open>
  The assignment \<^verbatim>\<open>copy[k] = v\<close> of \<^verbatim>\<open>objCopy\<close>, on the own properties and the prototype
  of \<^verbatim>\<open>copy\<close>. For every name but \<^verbatim>\<open>__proto__\<close> it sets an own property. For \<^verbatim>\<open>__proto__\<close>
  it runs the setter that \<^verbatim>\<open>Object.prototype\<close> has for this name: no own property is
  set, an object, an array or \<^verbatim>\<open>null\<close> becomes the prototype of \<^verbatim>\<open>copy\<close>, and any other
  value is ignored. (The names of an object are distinct, so the loop of \<^verbatim>\<open>objCopy\<close> meets
  \<^verbatim>\<open>__proto__\<close> at most once, when the prototype of \<^verbatim>\<open>copy\<close> is still
  \<^verbatim>\<open>Object.prototype\<close>.)
\<close>

definition set_proto :: "json \<Rightarrow> prototype \<Rightarrow> prototype" where
  "set_proto v pr =
     (case v of
        JNull \<Rightarrow> Null_prototype
      | JArr _ \<Rightarrow> Prototype v
      | JObj _ \<Rightarrow> Prototype v
      | _ \<Rightarrow> pr)"

definition copy_prop :: "string \<Rightarrow> json \<Rightarrow> jobject \<times> prototype \<Rightarrow> jobject \<times> prototype" where
  "copy_prop k v c =
     (if k = ''__proto__'' \<and> snd c = Object_prototype then (fst c, set_proto v (snd c))
      else (obj_set k v (fst c), snd c))"

text \<open>The loop \<^verbatim>\<open>Object.keys(obj).forEach(function (k) { copy[k] = obj[k]; })\<close>.\<close>

fun copy_props :: "jobject \<Rightarrow> jobject \<times> prototype \<Rightarrow> jobject \<times> prototype" where
  "copy_props [] c = c"
| "copy_props (e # es) c = copy_props es (copy_prop (fst e) (snd e) c)"

text \<open>
  \<^verbatim>\<open>objCopy\<close>: \<^verbatim>\<open>null\<close> for \<^verbatim>\<open>null\<close>, a slice of an array, and for any other value a fresh
  object \<^verbatim>\<open>{}\<close> that receives the properties one by one.
\<close>

fun objCopy :: "json \<Rightarrow> receiver" where
  "objCopy JNull = Null_receiver"
| "objCopy (JArr xs) = Array_receiver xs"
| "objCopy v =
     Object_receiver (fst (copy_props (own_props v) ([], Object_prototype)))
       (snd (copy_props (own_props v) ([], Object_prototype)))"

text \<open>
  \<^verbatim>\<open>rec.level < opts.level\<close> with a number on the right: the left side is converted to a
  number, and the comparison with \<^verbatim>\<open>NaN\<close> or \<^verbatim>\<open>undefined\<close> is false.
\<close>

definition js_lt_number :: "platform \<Rightarrow> jsval \<Rightarrow> int \<Rightarrow> bool" where
  "js_lt_number pf v n =
     (case v of
        None \<Rightarrow> False
      | Some JNull \<Rightarrow> 0 < n
      | Some (JBool b) \<Rightarrow> (if b then 1 else 0) < n
      | Some (JNum m) \<Rightarrow> m < n
      | Some (JInfinity neg) \<Rightarrow> neg
      | Some (JStr t) \<Rightarrow> string_lt_number pf t n
      | Some (JArr xs) \<Rightarrow> string_lt_number pf (to_str (JArr xs)) n
      | Some (JObj _) \<Rightarrow> False)"

text \<open>The loop over the conditions: the first falsy result ends it, an exception leaves it.\<close>

fun run_conds :: "predicate list \<Rightarrow> receiver \<Rightarrow> error + bool" where
  "run_conds [] c = Inr True"
| "run_conds (p # ps) c =
     (case p c of Inl e \<Rightarrow> Inl e
      | Inr pass \<Rightarrow> if \<not> pass then Inr False else run_conds ps c)"

text \<open>
  \<^verbatim>\<open>filterRecord(rec, opts)\<close>: the conditions of \<^verbatim>\<open>opts.condFuncs\<close> are called on
  \<^verbatim>\<open>objCopy(rec)\<close>, those of \<^verbatim>\<open>opts.condVm\<close> are run with \<^verbatim>\<open>rec\<close> itself as their context.
\<close>

definition filterRecord :: "platform \<Rightarrow> jobject \<Rightarrow> opts \<Rightarrow> error + bool" where
  "filterRecord pf r opts =
     (if (case opt_level opts of None \<Rightarrow> False
          | Some n \<Rightarrow> n \<noteq> 0 \<and> js_lt_number pf (field r ''level'') n)
      then Inr False
      else case condFuncs opts of
             Some fs \<Rightarrow> run_conds fs (objCopy (JObj r))
           | None \<Rightarrow>
              (case condVm opts of
                 Some vs \<Rightarrow> run_conds vs (Object_receiver r Object_prototype)
               | None \<Rightarrow> Inr True))"

section \<open>The table of streams and the merge \<^verbatim>\<open>emitNextRecord\<close>\<close>

text \<open>An element of \<^verbatim>\<open>streams[file].records\<close>: the line, the record and its date.\<close>

record entry =
  e_line :: string
  e_rec :: jobject
  e_time :: "int option"

text \<open>
  A value of the table \<^verbatim>\<open>streams\<close>: whether \<^verbatim>\<open>stream\<close> is set (it is \<^verbatim>\<open>null\<close> until
  \<^verbatim>\<open>processFile\<close> opens the file), the records read and not yet emitted, \<^verbatim>\<open>done\<close> and
  \<^verbatim>\<open>paused\<close> (absent at first, which is falsy).
\<close>

record stream_state =
  s_open :: bool
  records :: "entry list"
  s_done :: bool
  paused :: bool

datatype call = Pause | Resume

text \<open>
  The state of the process: the table \<^verbatim>\<open>streams\<close> in the order of \<^verbatim>\<open>for (ofile in
  streams)\<close>, the variable \<^verbatim>\<open>leftover\<close> of each \<^verbatim>\<open>processFile\<close> call and of
  \<^verbatim>\<open>processStdin\<close>, the strings written to the output, the calls of \<^verbatim>\<open>pause()\<close> and
  \<^verbatim>\<open>resume()\<close> on the underlying streams, the flag \<^verbatim>\<open>exiting\<close>, and the exception, once
  one has been thrown and not caught (the \<^verbatim>\<open>uncaughtException\<close> handler then ends the
  process with status 1).
\<close>

record state =
  streams :: "(string \<times> stream_state) list"
  leftover :: "string \<Rightarrow> string"
  stdin_leftover :: string
  out :: "string list"
  calls :: "(string \<times> call) list"
  exiting :: bool
  crashed :: "error option"

definition emit :: "string \<Rightarrow> state \<Rightarrow> state" where
  "emit s st = st\<lparr>out := out st @ [s]\<rparr>"

definition throw :: "error \<Rightarrow> state \<Rightarrow> state" where
  "throw e st = st\<lparr>crashed := Some e\<rparr>"

text \<open>Dates compare by their time values; a comparison with an invalid date is false.\<close>

definition time_gt :: "int option \<Rightarrow> int option \<Rightarrow> bool" where
  "time_gt a b = (case a of None \<Rightarrow> False | Some x \<Rightarrow> (case b of None \<Rightarrow> False | Some y \<Rightarrow> y < x))"

definition head_time :: "(string \<times> stream_state) list \<Rightarrow> string \<Rightarrow> int option" where
  "head_time ss f =
     (case map_of ss f of None \<Rightarrow> None
      | Some s \<Rightarrow> (case records s of [] \<Rightarrow> None | e # _ \<Rightarrow> e_time e))"

text \<open>
  The first loop of \<^verbatim>\<open>emitNextRecord\<close> over the table \<open>all\<close>, at the entries \<open>rest\<close>
  still to visit, with \<^verbatim>\<open>minfile\<close> so far. It returns \<^verbatim>\<open>ready\<close> and \<^verbatim>\<open>minfile\<close>.
\<close>

fun first_pass ::
  "(string \<times> stream_state) list \<Rightarrow> (string \<times> stream_state) list \<Rightarrow> string option
     \<Rightarrow> bool \<times> string option" where
  "first_pass all [] minfile = (True, minfile)"
| "first_pass all ((ofile, s) # rest) minfile =
     (if \<not> s_open s \<or> (\<not> s_done s \<and> length (records s) = 0) then (False, minfile)
      else first_pass all rest
             (if 0 < length (records s)
                 \<and> (case minfile of None \<Rightarrow> True
                     | Some m \<Rightarrow> time_gt (head_time all m) (head_time all ofile))
              then Some ofile else minfile))"

text \<open>The second loop: the new table and the calls made on the underlying streams.\<close>

fun second_pass ::
  "(string \<times> stream_state) list \<Rightarrow> (string \<times> stream_state) list \<times> (string \<times> call) list" where
  "second_pass [] = ([], [])"
| "second_pass ((ofile, s) # rest) =
     (let r = second_pass rest in
      if \<not> s_open s \<or> s_done s then ((ofile, s) # fst r, snd r)
      else if 0 < length (records s) then
        (if \<not> paused s then ((ofile, s\<lparr>paused := True\<rparr>) # fst r, (ofile, Pause) # snd r)
         else ((ofile, s) # fst r, snd r))
      else if paused s then ((ofile, s\<lparr>paused := False\<rparr>) # fst r, (ofile, Resume) # snd r)
      else ((ofile, s) # fst r, snd r))"

definition update_stream ::
  "string \<Rightarrow> (stream_state \<Rightarrow> stream_state) \<Rightarrow> (string \<times> stream_state) list
     \<Rightarrow> (string \<times> stream_state) list" where
  "update_stream f g ss = map (\<lambda>e. if fst e = f then (fst e, g (snd e)) else e) ss"

definition total_pending :: "(string \<times> stream_state) list \<Rightarrow> nat" where
  "total_pending ss = sum_list (map (\<lambda>e. length (records (snd e))) ss)"

text \<open>
  \<^verbatim>\<open>emitNextRecord\<close>: the loop emits the earliest record while every stream is done or
  has a record, and otherwise pauses the streams that have one, resumes the paused ones
  that have none, and returns. Every turn of the loop takes a record from the table.
\<close>

function emitNextRecord ::
  "platform \<Rightarrow> opts \<Rightarrow> (jsval \<Rightarrow> string option \<Rightarrow> jsval) \<Rightarrow> state \<Rightarrow> state" where
  "emitNextRecord pf opts stylize st =
     (case first_pass (streams st) (streams st) None of
        (ready, minfile) \<Rightarrow>
          (case (if \<not> ready then None else minfile) of
             None \<Rightarrow>
               st\<lparr>streams := fst (second_pass (streams st)),
                  calls := calls st @ snd (second_pass (streams st))\<rparr>
           | Some m \<Rightarrow>
               (case map_of (streams st) m of
                  None \<Rightarrow> throw TypeError st
                | Some s \<Rightarrow>
                   (case records s of
                      [] \<Rightarrow> throw TypeError st
                    | e # es \<Rightarrow>
                       (case emitRecord pf (e_rec e) (e_line e) opts stylize of
                          Inl err \<Rightarrow>
                            throw err
                              (st\<lparr>streams := update_stream m
                                     (\<lambda>x. x\<lparr>records := tl (records x)\<rparr>) (streams st)\<rparr>)
                        | Inr res \<Rightarrow>
                            emitNextRecord pf opts stylize
                              (emit (snd res)
                                (st\<lparr>streams := update_stream m
                                       (\<lambda>x. x\<lparr>records := tl (records x)\<rparr>) (streams st)\<rparr>)))))))"
  by pat_completeness auto

text \<open>
  \<^verbatim>\<open>gotRecord\<close>: the record is pushed on the queue of its file with its date, and the merge
  runs. A file that is not in the table raises.
\<close>

definition gotRecord ::
  "platform \<Rightarrow> string \<Rightarrow> string \<Rightarrow> jobject \<Rightarrow> opts \<Rightarrow> (jsval \<Rightarrow> string option \<Rightarrow> jsval)
     \<Rightarrow> state \<Rightarrow> state" where
  "gotRecord pf file ln r opts stylize st =
     (let time = Date_value pf (field r ''time'') in
      if \<not> has_key file (streams st) then throw TypeError st
      else emitNextRecord pf opts stylize
             (st\<lparr>streams := update_stream file
                    (\<lambda>x. x\<lparr>records := records x @ [\<lparr>e_line = ln, e_rec = r, e_time = time\<rparr>]\<rparr>)
                    (streams st)\<rparr>))"

section \<open>The line handler \<^verbatim>\<open>handleLogLine\<close>\<close>

text \<open>
  \<^verbatim>\<open>handleLogLine(file, line, opts, stylize)\<close>; \<open>file\<close> is \<open>None\<close> for the standard
  input. The branches are those of the source, in its order.
\<close>

definition handleLogLine ::
  "platform \<Rightarrow> string option \<Rightarrow> string \<Rightarrow> opts \<Rightarrow> (jsval \<Rightarrow> string option \<Rightarrow> jsval)
     \<Rightarrow> state \<Rightarrow> state" where
  "handleLogLine pf file ln opts stylize st =
     (if exiting st then st
      else if ln = [] then (if \<not> strict opts then emit (ln @ [LF]) st else st)
      else if hd ln \<noteq> CHR ''{'' then (if \<not> strict opts then emit (ln @ [LF]) st else st)
      else case JSON_parse pf ln of
        None \<Rightarrow> (if \<not> strict opts then emit (ln @ [LF]) st else st)
      | Some r \<Rightarrow>
          if \<not> isValidRecord r then (if \<not> strict opts then emit (ln @ [LF]) st else st)
          else (case filterRecord pf r opts of
                  Inl err \<Rightarrow> throw err st
                | Inr keep \<Rightarrow>
                    if \<not> keep then st
                    else (case file of
                            None \<Rightarrow>
                              (case emitRecord pf r ln opts stylize of
                                 Inl err \<Rightarrow> throw err st
                               | Inr res \<Rightarrow> emit (snd res) st)
                          | Some f \<Rightarrow> gotRecord pf f ln r opts stylize st)))"

text \<open>
  The three outcomes that the specification names, read off the branches of
  \<^verbatim>\<open>handleLogLine\<close>: the first two branches pass the line through, the next two find it
  invalid, the rest has a valid record.
\<close>

datatype outcome = PassThrough string | Invalid string | Valid jobject

definition classify :: "platform \<Rightarrow> string \<Rightarrow> outcome" where
  "classify pf ln =
     (if ln = [] then PassThrough ln
      else if hd ln \<noteq> CHR ''{'' then PassThrough ln
      else case JSON_parse pf ln of
        None \<Rightarrow> Invalid ln
      | Some r \<Rightarrow> if \<not> isValidRecord r then Invalid ln else Valid r)"

section \<open>Reading the inputs: \<^verbatim>\<open>processFile\<close>, \<^verbatim>\<open>processStdin\<close> and \<^verbatim>\<open>main\<close>\<close>

text \<open>A loop of \<^verbatim>\<open>handleLogLine\<close> calls; an exception ends it.\<close>

fun handle_lines ::
  "platform \<Rightarrow> string option \<Rightarrow> string list \<Rightarrow> opts \<Rightarrow> (jsval \<Rightarrow> string option \<Rightarrow> jsval)
     \<Rightarrow> state \<Rightarrow> state" where
  "handle_lines pf file [] opts stylize st = st"
| "handle_lines pf file (l # ls) opts stylize st =
     (if crashed st \<noteq> None then st
      else handle_lines pf file ls opts stylize (handleLogLine pf file l opts stylize st))"

text \<open>
  The \<^verbatim>\<open>data\<close> handler of a file. \<open>chunk\<close> is the text that \<^verbatim>\<open>decoder.write(data)\<close>
  returns for the bytes of the event.
\<close>

definition file_data ::
  "platform \<Rightarrow> string \<Rightarrow> string \<Rightarrow> opts \<Rightarrow> (jsval \<Rightarrow> string option \<Rightarrow> jsval) \<Rightarrow> state \<Rightarrow> state" where
  "file_data pf file chunk opts stylize st =
     (if exiting st then st
      else if length chunk = 0 then st
      else (let lines = split_lines chunk in
            if length lines = 1 then st\<lparr>leftover := (leftover st)(file := leftover st file @ hd lines)\<rparr>
            else (let st1 = handleLogLine pf (Some file) (leftover st file @ hd lines) opts stylize st in
                  if crashed st1 \<noteq> None then st1
                  else handle_lines pf (Some file) (butlast (tl lines)) opts stylize
                         (st1\<lparr>leftover := (leftover st1)(file := last lines)\<rparr>))))"

text \<open>The \<^verbatim>\<open>end\<close> handler of a file.\<close>

definition file_end ::
  "platform \<Rightarrow> string \<Rightarrow> opts \<Rightarrow> (jsval \<Rightarrow> string option \<Rightarrow> jsval) \<Rightarrow> state \<Rightarrow> state" where
  "file_end pf file opts stylize st =
     (if \<not> has_key file (streams st) then throw TypeError st
      else (let st1 = st\<lparr>streams := update_stream file (\<lambda>x. x\<lparr>s_done := True\<rparr>) (streams st)\<rparr> in
            if leftover st1 file \<noteq> [] then
              (let st2 = handleLogLine pf (Some file) (leftover st1 file) opts stylize st1 in
               if crashed st2 \<noteq> None then st2
               else st2\<lparr>leftover := (leftover st2)(file := [])\<rparr>)
            else emitNextRecord pf opts stylize st1))"

text \<open>The \<^verbatim>\<open>error\<close> handler of a file.\<close>

definition file_error :: "string \<Rightarrow> state \<Rightarrow> state" where
  "file_error file st =
     (if \<not> has_key file (streams st) then throw TypeError st
      else st\<lparr>streams := update_stream file (\<lambda>x. x\<lparr>s_done := True\<rparr>) (streams st)\<rparr>)"

text \<open>The handlers of the standard input; its chunks arrive as text.\<close>

definition stdin_data ::
  "platform \<Rightarrow> string \<Rightarrow> opts \<Rightarrow> (jsval \<Rightarrow> string option \<Rightarrow> jsval) \<Rightarrow> state \<Rightarrow> state" where
  "stdin_data pf chunk opts stylize st =
     (let lines = split_lines chunk in
      if length lines = 1 then st\<lparr>stdin_leftover := stdin_leftover st @ hd lines\<rparr>
      else (let st1 = handleLogLine pf None (stdin_leftover st @ hd lines) opts stylize st in
            if crashed st1 \<noteq> None then st1
            else handle_lines pf None (butlast (tl lines)) opts stylize
                   (st1\<lparr>stdin_leftover := last lines\<rparr>)))"

definition stdin_end ::
  "platform \<Rightarrow> opts \<Rightarrow> (jsval \<Rightarrow> string option \<Rightarrow> jsval) \<Rightarrow> state \<Rightarrow> state" where
  "stdin_end pf opts stylize st =
     (if stdin_leftover st \<noteq> [] then
        (let st1 = handleLogLine pf None (stdin_leftover st) opts stylize st in
         if crashed st1 \<noteq> None then st1 else st1\<lparr>stdin_leftover := []\<rparr>)
      else st)"

text \<open>
  \<^verbatim>\<open>main\<close>: every file argument gets its entry in the table, then \<^verbatim>\<open>processFile\<close> opens
  each of them, all before the first event is delivered.
\<close>

fun register :: "string list \<Rightarrow> (string \<times> stream_state) list \<Rightarrow> (string \<times> stream_state) list" where
  "register [] ss = ss"
| "register (file # files) ss =
     register files
       (obj_set file \<lparr>s_open = False, records = [], s_done = False, paused = False\<rparr> ss)"

fun open_files :: "string list \<Rightarrow> (string \<times> stream_state) list \<Rightarrow> (string \<times> stream_state) list" where
  "open_files [] ss = ss"
| "open_files (file # files) ss =
     open_files files (update_stream file (\<lambda>x. x\<lparr>s_open := True\<rparr>) ss)"

definition main_state :: "string list \<Rightarrow> state" where
  "main_state files =
     \<lparr>streams = open_files files (register files []), leftover = (\<lambda>_. []), stdin_leftover = [],
      out = [], calls = [], exiting = False, crashed = None\<rparr>"

definition stylize_of :: "opts \<Rightarrow> jsval \<Rightarrow> string option \<Rightarrow> jsval" where
  "stylize_of opts = (if opt_color opts then stylizeWithColor else stylizeWithoutColor)"

text \<open>The events of the input streams, and the run of the process over a sequence of them.
  After an uncaught exception the process has exited and handles nothing.\<close>

datatype event =
    Data string string
  | End string
  | StreamError string
  | StdinData string
  | StdinEnd

fun handle_event :: "platform \<Rightarrow> opts \<Rightarrow> event \<Rightarrow> state \<Rightarrow> state" where
  "handle_event pf opts (Data file chunk) st = file_data pf file chunk opts (stylize_of opts) st"
| "handle_event pf opts (End file) st = file_end pf file opts (stylize_of opts) st"
| "handle_event pf opts (StreamError file) st = file_error file st"
| "handle_event pf opts (StdinData chunk) st = stdin_data pf chunk opts (stylize_of opts) st"
| "handle_event pf opts StdinEnd st = stdin_end pf opts (stylize_of opts) st"

fun run :: "platform \<Rightarrow> opts \<Rightarrow> event list \<Rightarrow> state \<Rightarrow> state" where
  "run pf opts [] st = st"
| "run pf opts (ev # evs) st =
     (if crashed st \<noteq> None then st else run pf opts evs (handle_event pf opts ev st))"

section \<open>Well-formed objects and the inputs of the examples\<close>

text \<open>
  A list is the property list of a JavaScript object when no name occurs twice and every
  array index stands after smaller array indices only: adding the properties one by one
  never displaces one. \<open>wf_acc c es\<close> says so for the properties \<open>es\<close> after the
  properties \<open>c\<close>.
\<close>

fun wf_acc :: "(string \<times> 'a) list \<Rightarrow> (string \<times> 'a) list \<Rightarrow> bool" where
  "wf_acc c [] = True"
| "wf_acc c (e # es) =
     (\<not> has_key (fst e) c
      \<and> (if is_array_index (fst e) then list_all (before_index (fst e)) c else True)
      \<and> wf_acc (c @ [e]) es)"

definition wf_object :: "(string \<times> 'a) list \<Rightarrow> bool" where
  "wf_object kvs = wf_acc [] kvs"

text \<open>The conditions that \<^verbatim>\<open>filterRecord\<close> runs: \<^verbatim>\<open>opts.condFuncs\<close> when set, else
  \<^verbatim>\<open>opts.condVm\<close>.\<close>

definition conditions :: "opts \<Rightarrow> predicate list" where
  "conditions opts =
     (case condFuncs opts of Some fs \<Rightarrow> fs
      | None \<Rightarrow> (case condVm opts of Some vs \<Rightarrow> vs | None \<Rightarrow> []))"

text \<open>The value that \<^verbatim>\<open>filterRecord\<close> calls these conditions on, for the record \<open>r\<close>.\<close>

definition called_on :: "opts \<Rightarrow> jobject \<Rightarrow> receiver" where
  "called_on opts r =
     (case condFuncs opts of
        Some fs \<Rightarrow> objCopy (JObj r)
      | None \<Rightarrow> Object_receiver r Object_prototype)"

definition never_raises :: "predicate \<Rightarrow> receiver \<Rightarrow> bool" where
  "never_raises p c = (case p c of Inl _ \<Rightarrow> False | Inr _ \<Rightarrow> True)"

text \<open>
  \<^verbatim>\<open>this.k\<close> in a condition, for a name \<open>k\<close> that no built-in object has (\<^verbatim>\<open>pid\<close>, \<^verbatim>\<open>user\<close>,
  \<^verbatim>\<open>a\<close>): the own property, or else the property of the prototype. Called on \<^verbatim>\<open>null\<close>, a
  condition has the global object as \<^verbatim>\<open>this\<close>.
\<close>

fun this_prop :: "receiver \<Rightarrow> string \<Rightarrow> jsval" where
  "this_prop Null_receiver k = None"
| "this_prop (Array_receiver xs) k = get_prop (Some (JArr xs)) k"
| "this_prop (Object_receiver ps pr) k =
     (case map_of ps k of
        Some v \<Rightarrow> Some v
      | None \<Rightarrow> (case pr of Prototype v \<Rightarrow> get_prop (Some v) k | _ \<Rightarrow> None))"

text \<open>
  A record with the seven required fields, for the examples; its line is its compact
  JSON text.
\<close>

definition mk_record :: "int \<Rightarrow> string \<Rightarrow> string \<Rightarrow> jobject" where
  "mk_record lvl t m =
     [(''v'', JNum 0), (''level'', JNum lvl), (''name'', JStr ''app''),
      (''hostname'', JStr ''host''), (''pid'', JNum 123), (''time'', JStr t), (''msg'', JStr m)]"

definition line_of :: "jobject \<Rightarrow> string" where
  "line_of r = JSON_stringify (JObj r) 0"

text \<open>
  The runtime on the inputs of the examples: \<^verbatim>\<open>JSON.parse\<close> as the table \<open>tab\<close> of the
  lines that parse (every other line of an example is no JSON text), the time value of the
  timestamps \<^verbatim>\<open>1970-01-01T00:00:0N.000Z\<close>, \<^verbatim>\<open>util.format\<close> with string and integer
  arguments for \<^verbatim>\<open>%s\<close> and \<^verbatim>\<open>%d\<close>, and the conversion of digit strings to numbers.
\<close>

fun demo_format :: "string \<Rightarrow> jsval list \<Rightarrow> string" where
  "demo_format [] args = []"
| "demo_format [c] args = [c]"
| "demo_format (c # d # cs) args =
     (if c = CHR ''%'' \<and> (d = CHR ''s'' \<or> d = CHR ''d'') \<and> args \<noteq> []
      then to_string (hd args) @ demo_format cs (tl args)
      else c # demo_format (d # cs) args)"

definition demo_date :: "jsval \<Rightarrow> int option" where
  "demo_date v =
     (case v of
        Some (JStr t) \<Rightarrow>
          (if length t = 24 \<and> take 18 t = ''1970-01-01T00:00:0'' \<and> drop 19 t = ''.000Z''
              \<and> is_digit (t ! 18)
           then Some (1000 * int (nat_of_digits 0 [t ! 18])) else None)
      | _ \<Rightarrow> None)"

definition demo_platform :: "(string \<times> jobject) list \<Rightarrow> platform" where
  "demo_platform tab =
     \<lparr>JSON_parse = map_of tab,
      Date_value = demo_date,
      util_format = demo_format,
      util_inspect = (\<lambda>r. []),
      STATUS_CODES = map_of [(''200'', JStr ''OK''), (''404'', JStr ''Not Found'')],
      string_lt_number = (\<lambda>t n. t \<noteq> [] \<and> list_all is_digit t \<and> int (nat_of_digits 0 t) < n),
      string_gt_number = (\<lambda>t n. t \<noteq> [] \<and> list_all is_digit t \<and> n < int (nat_of_digits 0 t))\<rparr>"

definition demo_opts :: opts where
  "demo_opts =
     \<lparr>outputMode = OM_LONG, jsonIndent = 2, opt_level = None, strict = False,
      timeFormat = TIME_UTC, opt_color = False, condFuncs = None, condVm = None\<rparr>"

text \<open>The threshold of scenario B, with one condition (\<^verbatim>\<open>this.pid === 123\<close>).\<close>

definition warn_opts :: opts where
  "warn_opts = demo_opts\<lparr>opt_level := Some 40,
                 condFuncs := Some [\<lambda>c. Inr (this_prop c ''pid'' = Some (JNum 123))]\<rparr>"

section \<open>The classifier in the words of the specification\<close>

definition required_fields :: "string list" where
  "required_fields = [''v'', ''level'', ''name'', ''hostname'', ''pid'', ''time'', ''msg'']"

definition first_non_space :: "string \<Rightarrow> char option" where
  "first_non_space s = (case dropWhile (\<lambda>c. c = CHR '' '') s of [] \<Rightarrow> None | c # _ \<Rightarrow> Some c)"

text \<open>
  The classifier as the specification words it, to compare with \<open>classify\<close>: pass-through
  when the line is empty or its first non-space character is not a brace, invalid when
  the parse fails or a required field is missing, valid otherwise.
\<close>

definition spec_classify :: "platform \<Rightarrow> string \<Rightarrow> outcome" where
  "spec_classify pf ln =
     (if ln = [] \<or> first_non_space ln \<noteq> Some (CHR ''{'') then PassThrough ln
      else case JSON_parse pf ln of
        None \<Rightarrow> Invalid ln
      | Some r \<Rightarrow> if list_ex (\<lambda>k. field r k = None) required_fields then Invalid ln else Valid r)"

section \<open>Records and conditions of the examples\<close>

definition rec_one :: jobject where
  "rec_one = mk_record 30 ''1970-01-01T00:00:01.000Z'' ''one''"

definition rec_user :: jobject where
  "rec_user = mk_record 30 ''1970-01-01T00:00:02.000Z'' ''two'' @ [(''user'', JObj [(''id'', JNum 7)])]"

text \<open>The condition \<^verbatim>\<open>this.user.id === 7\<close>: reading \<^verbatim>\<open>id\<close> of \<^verbatim>\<open>undefined\<close> or \<^verbatim>\<open>null\<close>
  raises a TypeError.\<close>

definition user_id_is_7 :: predicate where
  "user_id_is_7 c =
     (case this_prop c ''user'' of
        None \<Rightarrow> Inl TypeError
      | Some JNull \<Rightarrow> Inl TypeError
      | Some u \<Rightarrow> Inr (get_prop (Some u) ''id'' = Some (JNum 7)))"

definition cond_opts :: opts where
  "cond_opts = demo_opts\<lparr>condFuncs := Some [user_id_is_7]\<rparr>"

definition demo_pf :: platform where
  "demo_pf = demo_platform
     [(line_of rec_one, rec_one), (line_of rec_user, rec_user),
      ('' '' @ line_of rec_one, rec_one)]"

text \<open>What the examples show of the table: per file the lines of the records waiting,
  \<^verbatim>\<open>done\<close> and \<^verbatim>\<open>paused\<close>.\<close>

definition table_view :: "state \<Rightarrow> (string \<times> string list \<times> bool \<times> bool) list" where
  "table_view st =
     map (\<lambda>e. (fst e, map e_line (records (snd e)), s_done (snd e), paused (snd e))) (streams st)"

section \<open>The calls of \<^verbatim>\<open>pause()\<close> and \<^verbatim>\<open>resume()\<close>\<close>









section \<open>What rendering leaves of the record, and the leftover fields\<close>



text \<open>
  The leftover loop, field by field: the text of the value (a string as it is, any other
  value by \<^verbatim>\<open>JSON.stringify(value, null, 2)\<close>), whether the field goes to the details, and
  its text in the details and in the extras.
\<close>

definition value_text :: "string \<times> json \<Rightarrow> string" where
  "value_text e = (case snd e of JStr t \<Rightarrow> t | x \<Rightarrow> JSON_stringify x 2)"

definition to_details :: "string \<times> json \<Rightarrow> bool" where
  "to_details e = (LF \<in> set (value_text e) \<or> 50 < length (value_text e))"

definition detail_text :: "string \<times> json \<Rightarrow> string" where
  "detail_text e = indent_str (fst e @ '': '' @ value_text e)"

definition extra_text :: "string \<times> json \<Rightarrow> string" where
  "extra_text e =
     fst e @ ''='' @
       (case snd e of
          JStr t \<Rightarrow> if CHR '' '' \<in> set t \<or> t = [] then quote t else t
        | x \<Rightarrow> JSON_stringify x 2)"

text \<open>
  The extras text as the specification words it: a string is quoted when it contains
  whitespace or is empty.
\<close>

definition spec_extra_text :: "string \<times> json \<Rightarrow> string" where
  "spec_extra_text e =
     fst e @ ''='' @
       (case snd e of
          JStr t \<Rightarrow> if list_ex is_space t \<or> t = [] then quote t else t
        | x \<Rightarrow> JSON_stringify x 2)"

text \<open>A record with one more field, whose value has a tab in it.\<close>

definition rec_tab :: jobject where
  "rec_tab = rec_one @ [(''note'', JStr (''a'' @ [CHR 0x09] @ ''b''))]"

section \<open>Conditions that assign: the record and its copy in a store\<close>

text \<open>
  What a condition assigns is seen only when objects have identities. Here an object is a
  cell of a store and a value is a primitive or the address of a cell; an array is a cell
  whose property names are its indices. The store gives out the addresses in order.
\<close>

datatype prim = PNull | PBool bool | PNum int | PInfinity bool | PStr string

datatype val = Prim prim | Ref nat

text \<open>The prototype of a cell: the built-in one (\<^verbatim>\<open>Object.prototype\<close>, or
  \<^verbatim>\<open>Array.prototype\<close> for an array), none, or the object at an address.\<close>

datatype link = Builtin | No_prototype | Prototype_at nat

record hobj =
  is_array :: bool
  props :: "(string \<times> val) list"
  link :: link

record store =
  cells :: "nat \<Rightarrow> hobj option"
  next_addr :: nat

definition empty_store :: store where
  "empty_store = \<lparr>cells = (\<lambda>a. None), next_addr = 0\<rparr>"

definition alloc :: "hobj \<Rightarrow> store \<Rightarrow> nat \<times> store" where
  "alloc ob s =
     (next_addr s, s\<lparr>cells := (cells s)(next_addr s := Some ob), next_addr := Suc (next_addr s)\<rparr>)"

text \<open>
  The objects that \<^verbatim>\<open>JSON.parse\<close> makes for a value: a fresh cell for every object and
  every array, with the built-in prototype, the nested values first.
\<close>

fun store_value :: "json \<Rightarrow> store \<Rightarrow> val \<times> store"
  and store_elems :: "json list \<Rightarrow> store \<Rightarrow> val list \<times> store"
  and store_members :: "jobject \<Rightarrow> store \<Rightarrow> (string \<times> val) list \<times> store" where
  "store_value JNull s = (Prim PNull, s)"
| "store_value (JBool b) s = (Prim (PBool b), s)"
| "store_value (JNum n) s = (Prim (PNum n), s)"
| "store_value (JInfinity neg) s = (Prim (PInfinity neg), s)"
| "store_value (JStr t) s = (Prim (PStr t), s)"
| "store_value (JArr xs) s =
     (let m = store_elems xs s;
          r = alloc \<lparr>is_array = True, props = zip (map digits [0..<length (fst m)]) (fst m),
                     link = Builtin\<rparr> (snd m)
      in (Ref (fst r), snd r))"
| "store_value (JObj kvs) s =
     (let m = store_members kvs s;
          r = alloc \<lparr>is_array = False, props = fst m, link = Builtin\<rparr> (snd m)
      in (Ref (fst r), snd r))"
| "store_elems [] s = ([], s)"
| "store_elems (x # xs) s =
     (let v = store_value x s; m = store_elems xs (snd v) in (fst v # fst m, snd m))"
| "store_members [] s = ([], s)"
| "store_members (e # es) s =
     (let v = store_value (snd e) s; m = store_members es (snd v)
      in ((fst e, fst v) # fst m, snd m))"

text \<open>
  The value at an address as the renderer reads it, by its own properties, nested \<open>n\<close> deep
  at most. An object that holds itself has no such value, for any \<open>n\<close>.
\<close>

definition json_of_prim :: "prim \<Rightarrow> json" where
  "json_of_prim p =
     (case p of PNull \<Rightarrow> JNull | PBool b \<Rightarrow> JBool b | PNum n \<Rightarrow> JNum n
      | PInfinity neg \<Rightarrow> JInfinity neg | PStr t \<Rightarrow> JStr t)"

fun value_at :: "nat \<Rightarrow> store \<Rightarrow> val \<Rightarrow> json option" where
  "value_at n s (Prim p) = Some (json_of_prim p)"
| "value_at 0 s (Ref a) = None"
| "value_at (Suc n) s (Ref a) =
     (case cells s a of
        None \<Rightarrow> None
      | Some ob \<Rightarrow>
          (case those (map (\<lambda>e. value_at n s (snd e)) (props ob)) of
             None \<Rightarrow> None
           | Some vs \<Rightarrow>
               Some (if is_array ob then JArr vs else JObj (zip (map fst (props ob)) vs))))"

text \<open>The record at \<open>v\<close>; a chain of nested objects is shorter than the number of cells.\<close>

definition record_at :: "store \<Rightarrow> val \<Rightarrow> jobject option" where
  "record_at s v =
     (case value_at (Suc (next_addr s)) s v of
        Some (JObj r) \<Rightarrow> Some r
      | _ \<Rightarrow> None)"

text \<open>The own properties of a primitive, for \<^verbatim>\<open>Object.keys\<close>: the characters of a string.\<close>

definition prim_props :: "prim \<Rightarrow> (string \<times> val) list" where
  "prim_props p =
     (case p of PStr t \<Rightarrow> zip (map digits [0..<length t]) (map (\<lambda>c. Prim (PStr [c])) t)
      | _ \<Rightarrow> [])"

text \<open>
  \<^verbatim>\<open>copy[k] = v\<close> and the loop of \<^verbatim>\<open>objCopy\<close> on the store, as \<open>copy_prop\<close> and
  \<open>copy_props\<close> above: the name \<^verbatim>\<open>__proto__\<close> sets no own property, it makes an object or
  \<^verbatim>\<open>null\<close> the prototype of the copy.
\<close>

definition set_link :: "val \<Rightarrow> link \<Rightarrow> link" where
  "set_link v l =
     (case v of
        Prim PNull \<Rightarrow> No_prototype
      | Prim _ \<Rightarrow> l
      | Ref b \<Rightarrow> Prototype_at b)"

definition copy_prop_store ::
  "string \<Rightarrow> val \<Rightarrow> (string \<times> val) list \<times> link \<Rightarrow> (string \<times> val) list \<times> link" where
  "copy_prop_store k v c =
     (if k = ''__proto__'' \<and> snd c = Builtin then (fst c, set_link v (snd c))
      else (obj_set k v (fst c), snd c))"

fun copy_props_store ::
  "(string \<times> val) list \<Rightarrow> (string \<times> val) list \<times> link \<Rightarrow> (string \<times> val) list \<times> link" where
  "copy_props_store [] c = c"
| "copy_props_store (e # es) c = copy_props_store es (copy_prop_store (fst e) (snd e) c)"

text \<open>
  \<^verbatim>\<open>objCopy\<close> on the store: \<^verbatim>\<open>null\<close> stays, an array is sliced, and any other value gets a
  fresh object that receives the properties one by one. The property values are copied as
  they are, so a nested object is shared between the original and the copy.
\<close>

definition objCopy_store :: "store \<Rightarrow> val \<Rightarrow> val \<times> store" where
  "objCopy_store s v =
     (case v of
        Prim PNull \<Rightarrow> (Prim PNull, s)
      | Prim p \<Rightarrow>
          (let c = copy_props_store (prim_props p) ([], Builtin);
               r = alloc \<lparr>is_array = False, props = fst c, link = snd c\<rparr> s
           in (Ref (fst r), snd r))
      | Ref a \<Rightarrow>
          (case cells s a of
             None \<Rightarrow> (v, s)
           | Some ob \<Rightarrow>
               if is_array ob
               then (let r = alloc \<lparr>is_array = True,
                                     props = filter (\<lambda>e. is_array_index (fst e)) (props ob),
                                     link = Builtin\<rparr> s
                     in (Ref (fst r), snd r))
               else (let c = copy_props_store (props ob) ([], Builtin);
                         r = alloc \<lparr>is_array = False, props = fst c, link = snd c\<rparr> s
                     in (Ref (fst r), snd r))))"

text \<open>
  A condition with its effects: called on a value in a store, it returns a value or
  throws, and leaves a store.
\<close>

type_synonym hpred = "store \<Rightarrow> val \<Rightarrow> (error + bool) \<times> store"

text \<open>The loop over the conditions, as \<open>run_conds\<close> above, with the store passed on.\<close>

fun conds_loop :: "hpred list \<Rightarrow> store \<Rightarrow> val \<Rightarrow> (error + bool) \<times> store" where
  "conds_loop [] s c = (Inr True, s)"
| "conds_loop (p # ps) s c =
     (case fst (p s c) of
        Inl e \<Rightarrow> (Inl e, snd (p s c))
      | Inr pass \<Rightarrow>
          if \<not> pass then (Inr False, snd (p s c))
          else conds_loop ps (snd (p s c)) c)"

text \<open>
  \<^verbatim>\<open>filterRecord(rec, opts)\<close> for conditions with effects; \<open>cf\<close> and \<open>cv\<close> are
  \<^verbatim>\<open>opts.condFuncs\<close> and \<^verbatim>\<open>opts.condVm\<close>. The result is what the call returns or throws, and
  the record as the call leaves it: \<open>None\<close> when the conditions have left an object that
  holds itself. The conditions of \<^verbatim>\<open>opts.condFuncs\<close> are called on \<^verbatim>\<open>objCopy(rec)\<close>, those
  of \<^verbatim>\<open>opts.condVm\<close> are run with \<^verbatim>\<open>rec\<close> itself as their context.
\<close>

definition filterRecord_store ::
  "platform \<Rightarrow> jobject \<Rightarrow> opts \<Rightarrow> hpred list option \<Rightarrow> hpred list option
     \<Rightarrow> (error + bool) \<times> jobject option" where
  "filterRecord_store pf r opts cf cv =
     (if (case opt_level opts of None \<Rightarrow> False
          | Some n \<Rightarrow> n \<noteq> 0 \<and> js_lt_number pf (field r ''level'') n)
      then (Inr False, Some r)
      else case cf of
             Some fs \<Rightarrow>
               (let l = store_value (JObj r) empty_store;
                    c = objCopy_store (snd l) (fst l);
                    res = conds_loop fs (snd c) (fst c)
                in (fst res, record_at (snd res) (fst l)))
           | None \<Rightarrow>
              (case cv of
                 Some vs \<Rightarrow>
                   (let l = store_value (JObj r) empty_store;
                        res = conds_loop vs (snd l) (fst l)
                    in (fst res, record_at (snd res) (fst l)))
               | None \<Rightarrow> (Inr True, Some r)))"

text \<open>
  \<^verbatim>\<open>handleLogLine\<close> with these conditions, branch for branch as above; the record that
  \<^verbatim>\<open>filterRecord\<close> was called on is the one passed to \<^verbatim>\<open>emitRecord\<close> or \<^verbatim>\<open>gotRecord\<close>. There
  is no result when that record holds itself: the renderer of this theory reads a record
  as a tree.
\<close>

definition handleLogLine_store ::
  "platform \<Rightarrow> string option \<Rightarrow> string \<Rightarrow> opts \<Rightarrow> hpred list option \<Rightarrow> hpred list option
     \<Rightarrow> (jsval \<Rightarrow> string option \<Rightarrow> jsval) \<Rightarrow> state \<Rightarrow> state option" where
  "handleLogLine_store pf file ln opts cf cv stylize st =
     (if exiting st then Some st
      else if ln = [] then Some (if \<not> strict opts then emit (ln @ [LF]) st else st)
      else if hd ln \<noteq> CHR ''{'' then Some (if \<not> strict opts then emit (ln @ [LF]) st else st)
      else case JSON_parse pf ln of
        None \<Rightarrow> Some (if \<not> strict opts then emit (ln @ [LF]) st else st)
      | Some r \<Rightarrow>
          if \<not> isValidRecord r then Some (if \<not> strict opts then emit (ln @ [LF]) st else st)
          else (case fst (filterRecord_store pf r opts cf cv) of
                  Inl err \<Rightarrow> Some (throw err st)
                | Inr keep \<Rightarrow>
                    if \<not> keep then Some st
                    else (case snd (filterRecord_store pf r opts cf cv) of
                            None \<Rightarrow> None
                          | Some r2 \<Rightarrow>
                              (case file of
                                 None \<Rightarrow>
                                   (case emitRecord pf r2 ln opts stylize of
                                      Inl err \<Rightarrow> Some (throw err st)
                                    | Inr res \<Rightarrow> Some (emit (snd res) st))
                               | Some f \<Rightarrow> Some (gotRecord pf f ln r2 opts stylize st)))))"

text \<open>
  \<^verbatim>\<open>obj.k = v\<close> for an object of the store and a name \<open>k\<close> other than \<^verbatim>\<open>__proto__\<close>: an own
  property is set (the objects of the store have no setter and no read-only property).
\<close>

definition set_own :: "nat \<Rightarrow> string \<Rightarrow> val \<Rightarrow> store \<Rightarrow> store" where
  "set_own a k v s =
     (case cells s a of
        None \<Rightarrow> s
      | Some ob \<Rightarrow> s\<lparr>cells := (cells s)(a := Some (ob\<lparr>props := obj_set k v (props ob)\<rparr>))\<rparr>)"

text \<open>
  The condition \<^verbatim>\<open>this.msg = 'changed'\<close>: it assigns to the top level of its context, and
  its value, a string that is not empty, is truthy. Called on \<^verbatim>\<open>null\<close> it has the global
  object as \<^verbatim>\<open>this\<close>, and called on another primitive a wrapper that is dropped; neither
  is an object of the store.
\<close>

definition set_msg :: hpred where
  "set_msg s c =
     (case c of
        Ref a \<Rightarrow> (Inr True, set_own a ''msg'' (Prim (PStr ''changed'')) s)
      | Prim p \<Rightarrow> (Inr True, s))"

text \<open>The record of the examples with the message that the condition assigns.\<close>

definition rec_changed :: jobject where
  "rec_changed = mk_record 30 ''1970-01-01T00:00:01.000Z'' ''changed''"

section \<open>Reading back what the bunyan mode writes\<close>

text \<open>
  A parser for the JSON texts of the values of this model, after the grammar of
  \<^verbatim>\<open>JSON.parse\<close>: white space between tokens, the escapes of strings, the members of an
  object added one by one. A number literal with a fraction or an exponent, and an escape
  \<^verbatim>\<open>\uXXXX\<close> of a code unit above 255, are outside the model of the values; the parser
  gives no result for them. The first argument of \<open>parse_value\<close> bounds the number of
  values, elements and members read; the length of the text is enough.
\<close>

definition is_ws :: "char \<Rightarrow> bool" where
  "is_ws c = (c = CHR '' '' \<or> c = CHR 0x09 \<or> c = LF \<or> c = CR)"

definition skip_ws :: "string \<Rightarrow> string" where
  "skip_ws s = dropWhile is_ws s"

definition hex_val :: "char \<Rightarrow> nat option" where
  "hex_val c =
     (let n = (of_char c :: nat) in
      if 48 \<le> n \<and> n \<le> 57 then Some (n - 48)
      else if 97 \<le> n \<and> n \<le> 102 then Some (n - 87)
      else if 65 \<le> n \<and> n \<le> 70 then Some (n - 55)
      else None)"

definition unescape :: "char \<Rightarrow> char option" where
  "unescape e =
     (if e = DQ then Some DQ
      else if e = BSL then Some BSL
      else if e = CHR ''/'' then Some (CHR ''/'')
      else if e = CHR ''b'' then Some (CHR 0x08)
      else if e = CHR ''f'' then Some (CHR 0x0C)
      else if e = CHR ''n'' then Some LF
      else if e = CHR ''r'' then Some CR
      else if e = CHR ''t'' then Some (CHR 0x09)
      else None)"

definition cons_fst :: "'a \<Rightarrow> ('a list \<times> 'b) option \<Rightarrow> ('a list \<times> 'b) option" where
  "cons_fst x r = (case r of None \<Rightarrow> None | Some p \<Rightarrow> Some (x # fst p, snd p))"

text \<open>The characters of a string after the opening quote, up to the closing one.\<close>

fun parse_chars :: "string \<Rightarrow> (string \<times> string) option" where
  "parse_chars [] = None"
| "parse_chars (c # cs) =
     (if c = DQ then Some ([], cs)
      else if c = BSL then
        (case cs of
           [] \<Rightarrow> None
         | e # cs1 \<Rightarrow>
             if e = CHR ''u'' then
               (case cs1 of
                  h1 # h2 # h3 # h4 # cs2 \<Rightarrow>
                    (case hex_val h1 of None \<Rightarrow> None | Some a \<Rightarrow>
                     case hex_val h2 of None \<Rightarrow> None | Some b \<Rightarrow>
                     case hex_val h3 of None \<Rightarrow> None | Some c3 \<Rightarrow>
                     case hex_val h4 of None \<Rightarrow> None | Some d \<Rightarrow>
                       if a = 0 \<and> b = 0 then cons_fst (char_of (16 * c3 + d)) (parse_chars cs2)
                       else None)
                | _ \<Rightarrow> None)
             else (case unescape e of
                     None \<Rightarrow> None
                   | Some x \<Rightarrow> cons_fst x (parse_chars cs1)))
      else if (of_char c :: nat) < 32 then None
      else cons_fst c (parse_chars cs))"

definition parse_number :: "string \<Rightarrow> (json \<times> string) option" where
  "parse_number s =
     (let neg = (s \<noteq> [] \<and> hd s = CHR ''-'');
          s1 = (if neg then tl s else s);
          ds = takeWhile is_digit s1;
          rest = dropWhile is_digit s1
      in if ds = [] then None
         else if 1 < length ds \<and> hd ds = CHR ''0'' then None
         else if rest \<noteq> [] \<and> (hd rest = CHR ''.'' \<or> hd rest = CHR ''e'' \<or> hd rest = CHR ''E'')
           then None
         else Some (JNum ((if neg then - 1 else 1) * int (nat_of_digits 0 ds)), rest))"

definition parse_literal :: "string \<Rightarrow> (json \<times> string) option" where
  "parse_literal s =
     (if take 4 s = ''null'' then Some (JNull, drop 4 s)
      else if take 4 s = ''true'' then Some (JBool True, drop 4 s)
      else if take 5 s = ''false'' then Some (JBool False, drop 5 s)
      else None)"

fun parse_value :: "nat \<Rightarrow> string \<Rightarrow> (json \<times> string) option"
  and parse_elems :: "nat \<Rightarrow> string \<Rightarrow> json list \<Rightarrow> (json \<times> string) option"
  and parse_members :: "nat \<Rightarrow> string \<Rightarrow> jobject \<Rightarrow> (json \<times> string) option" where
  "parse_value 0 s = None"
| "parse_value (Suc n) s =
     (case skip_ws s of
        [] \<Rightarrow> None
      | c # cs \<Rightarrow>
          if c = CHR ''{'' then
            (case skip_ws cs of
               [] \<Rightarrow> None
             | d # ds \<Rightarrow> if d = CHR ''}'' then Some (JObj [], ds) else parse_members n (d # ds) [])
          else if c = CHR ''['' then
            (case skip_ws cs of
               [] \<Rightarrow> None
             | d # ds \<Rightarrow> if d = CHR '']'' then Some (JArr [], ds) else parse_elems n (d # ds) [])
          else if c = DQ then
            (case parse_chars cs of None \<Rightarrow> None | Some r \<Rightarrow> Some (JStr (fst r), snd r))
          else if c = CHR ''-'' \<or> is_digit c then parse_number (c # cs)
          else parse_literal (c # cs))"
| "parse_elems 0 s acc = None"
| "parse_elems (Suc n) s acc =
     (case parse_value n s of
        None \<Rightarrow> None
      | Some r \<Rightarrow>
          (case skip_ws (snd r) of
             [] \<Rightarrow> None
           | c # cs \<Rightarrow>
               if c = CHR '','' then parse_elems n cs (acc @ [fst r])
               else if c = CHR '']'' then Some (JArr (acc @ [fst r]), cs)
               else None))"
| "parse_members 0 s acc = None"
| "parse_members (Suc n) s acc =
     (case skip_ws s of
        [] \<Rightarrow> None
      | c # cs \<Rightarrow>
          if c \<noteq> DQ then None
          else (case parse_chars cs of
                  None \<Rightarrow> None
                | Some kr \<Rightarrow>
                    (case skip_ws (snd kr) of
                       [] \<Rightarrow> None
                     | d # ds \<Rightarrow>
                         if d \<noteq> CHR '':'' then None
                         else (case parse_value n ds of
                                 None \<Rightarrow> None
                               | Some r \<Rightarrow>
                                   (case skip_ws (snd r) of
                                      [] \<Rightarrow> None
                                    | e # es \<Rightarrow>
                                        if e = CHR '','' then
                                          parse_members n es (obj_set (fst kr) (fst r) acc)
                                        else if e = CHR ''}'' then
                                          Some (JObj (obj_set (fst kr) (fst r) acc), es)
                                        else None)))))"

text \<open>\<^verbatim>\<open>JSON.parse\<close> for a line of \<^verbatim>\<open>handleLogLine\<close>: the whole text is one value, and an
  object (a text that starts with a brace has no other value).\<close>

definition json_parse :: "string \<Rightarrow> jobject option" where
  "json_parse s =
     (case parse_value (Suc (length s)) s of
        Some (JObj kvs, rest) \<Rightarrow> if skip_ws rest = [] then Some kvs else None
      | _ \<Rightarrow> None)"

section \<open>Values that are read back as they were written\<close>








section \<open>Conditions without effects, on the store\<close>

text \<open>
  The value that a condition is called on, read from the store: \<^verbatim>\<open>null\<close>, an array, or an
  object with its own properties and its prototype.
\<close>

definition proto_at :: "store \<Rightarrow> link \<Rightarrow> prototype option" where
  "proto_at s l =
     (case l of
        Builtin \<Rightarrow> Some Object_prototype
      | No_prototype \<Rightarrow> Some Null_prototype
      | Prototype_at b \<Rightarrow> map_option Prototype (value_at (next_addr s) s (Ref b)))"

definition receiver_at :: "store \<Rightarrow> val \<Rightarrow> receiver option" where
  "receiver_at s v =
     (case v of
        Prim PNull \<Rightarrow> Some Null_receiver
      | Prim _ \<Rightarrow> None
      | Ref a \<Rightarrow>
          (case cells s a of
             None \<Rightarrow> None
           | Some ob \<Rightarrow>
               (case those (map (\<lambda>e. value_at (next_addr s) s (snd e)) (props ob)) of
                  None \<Rightarrow> None
                | Some vs \<Rightarrow>
                    if is_array ob then Some (Array_receiver vs)
                    else map_option (Object_receiver (zip (map fst (props ob)) vs))
                           (proto_at s (link ob)))))"

text \<open>A condition that assigns nothing, as a condition on the store: it reads the value it
  is called on and leaves the store as it is.\<close>

definition lift :: "predicate \<Rightarrow> hpred" where
  "lift p s c = ((case receiver_at s c of None \<Rightarrow> Inl TypeError | Some x \<Rightarrow> p x), s)"

text \<open>
  For the proofs: the objects of \<open>s\<close> are objects of \<open>t\<close>; no address from \<open>next_addr\<close> on
  holds an object; \<open>t\<close> is \<open>s\<close> after allocations; a property in the store has the name and
  the value of a property of a parsed value; a prototype in the store is a prototype of a
  copy of a parsed value.
\<close>

definition kept_in :: "store \<Rightarrow> store \<Rightarrow> bool" where
  "kept_in s t = (\<forall>a ob. cells s a = Some ob \<longrightarrow> cells t a = Some ob)"

definition fresh_above :: "store \<Rightarrow> bool" where
  "fresh_above s = (\<forall>a. next_addr s \<le> a \<longrightarrow> cells s a = None)"

definition loaded :: "store \<Rightarrow> store \<Rightarrow> bool" where
  "loaded s t = (fresh_above t \<and> kept_in s t \<and> next_addr s \<le> next_addr t)"

definition same :: "nat \<Rightarrow> store \<Rightarrow> string \<times> val \<Rightarrow> string \<times> json \<Rightarrow> bool" where
  "same n s e f = (fst e = fst f \<and> value_at n s (snd e) = Some (snd f))"

definition same_proto :: "nat \<Rightarrow> store \<Rightarrow> link \<Rightarrow> prototype \<Rightarrow> bool" where
  "same_proto n s l pr =
     (case l of
        Builtin \<Rightarrow> pr = Object_prototype
      | No_prototype \<Rightarrow> pr = Null_prototype
      | Prototype_at b \<Rightarrow> (case pr of Prototype j \<Rightarrow> value_at n s (Ref b) = Some j | _ \<Rightarrow> False))"

text \<open>A condition that changes no object but the one it is called on: it assigns to the top
  level of its context only.\<close>

definition writes_this_only :: "hpred \<Rightarrow> bool" where
  "writes_this_only p =
     (\<forall>s a. next_addr s \<le> next_addr (snd (p s (Ref a)))
        \<and> (\<forall>b ob. b \<noteq> a \<and> cells s b = Some ob \<longrightarrow> cells (snd (p s (Ref a))) b = Some ob))"

section \<open>A record with a property named \<^verbatim>\<open>__proto__\<close>\<close>

text \<open>
  The record of the line
  \<^verbatim>\<open>{"v":0,"level":30,"name":"app","hostname":"host","pid":123,"time":"1970-01-01T00:00:01.000Z","msg":"one","__proto__":{"a":1}}\<close>:
  \<^verbatim>\<open>JSON.parse\<close> makes \<^verbatim>\<open>__proto__\<close> an own property like any other.
\<close>

definition rec_proto :: jobject where
  "rec_proto = rec_one @ [(''__proto__'', JObj [(''a'', JNum 1)])]"

text \<open>The conditions \<^verbatim>\<open>this.a === undefined\<close> and \<^verbatim>\<open>this.a === 1\<close>.\<close>

definition a_is_undefined :: predicate where
  "a_is_undefined c = Inr (this_prop c ''a'' = None)"

definition a_is_1 :: predicate where
  "a_is_1 c = Inr (this_prop c ''a'' = Some (JNum 1))"

section \<open>Termination of the merge loop\<close>

lemma total_pending_shift:
  assumes "map_of ss f = Some s" and "records s = e # es"
  shows "total_pending (update_stream f (\<lambda>x. x\<lparr>records := tl (records x)\<rparr>) ss) < total_pending ss"
  using assms
proof (induction ss)
  case Nil
  then show ?case by simp
next
  case (Cons a ss)
  have le: "total_pending (update_stream f (\<lambda>x. x\<lparr>records := tl (records x)\<rparr>) ss) \<le> total_pending ss"
    for ss :: "(string \<times> stream_state) list"
    by (induction ss) (auto simp: total_pending_def update_stream_def)
  show ?case
  proof (cases "fst a = f")
    case True
    with Cons.prems have "snd a = s" by (cases a) auto
    with True Cons.prems(2) le [of ss] show ?thesis
      by (cases a) (auto simp: total_pending_def update_stream_def)
  next
    case False
    with Cons.prems have "map_of ss f = Some s" by (cases a) auto
    with Cons.IH Cons.prems(2) False show ?thesis
      by (cases a) (auto simp: total_pending_def update_stream_def)
  qed
qed

termination emitNextRecord
  by (relation "measure (\<lambda>(pf, opts, stylize, st). total_pending (streams st))")
     (auto simp: emit_def intro: total_pending_shift)


declare emitNextRecord.simps [simp del]
declare digits.simps [simp del]

section \<open>Objects keep their properties when copied\<close>

lemma obj_set_new:
  assumes "\<not> has_key k c"
    and "is_array_index k \<Longrightarrow> list_all (before_index k) c"
  shows "obj_set k v c = c @ [(k, v)]"
proof (cases "is_array_index k")
  case True
  then have all: "\<forall>x\<in>set c. before_index k x"
    using assms(2) by (simp add: list_all_iff)
  then have "takeWhile (before_index k) c = c" and "dropWhile (before_index k) c = []"
    by (simp_all add: takeWhile_eq_all_conv)
  with True assms(1) show ?thesis by (simp add: obj_set_def)
next
  case False
  with assms(1) show ?thesis by (simp add: obj_set_def)
qed

lemma copy_props_wf:
  "wf_acc c es \<Longrightarrow> \<not> has_key ''__proto__'' es \<Longrightarrow> copy_props es (c, pr) = (c @ es, pr)"
proof (induction es arbitrary: c)
  case Nil
  then show ?case by simp
next
  case (Cons e es)
  from Cons.prems(2) have k: "fst e \<noteq> ''__proto__''" and rest: "\<not> has_key ''__proto__'' es"
    by (auto simp: has_key_def)
  from Cons.prems(1) have "obj_set (fst e) (snd e) c = c @ [(fst e, snd e)]"
    by (intro obj_set_new) (simp_all split: if_splits)
  then have "copy_prop (fst e) (snd e) (c, pr) = (c @ [e], pr)"
    using k by (simp add: copy_prop_def)
  moreover from Cons.prems(1) have "wf_acc (c @ [e]) es" by simp
  ultimately show ?case using Cons.IH [OF _ rest] by simp
qed

text \<open>The copy of a record that has no property named \<^verbatim>\<open>__proto__\<close> is an object with the
  properties of the record, in their order, and the prototype \<^verbatim>\<open>Object.prototype\<close>.\<close>

lemma objCopy_wf:
  "wf_object r \<Longrightarrow> \<not> has_key ''__proto__'' r \<Longrightarrow> objCopy (JObj r) = Object_receiver r Object_prototype"
  using copy_props_wf [of "[]" r Object_prototype] by (simp add: wf_object_def)

lemma called_on_wf:
  "wf_object r \<Longrightarrow> \<not> has_key ''__proto__'' r \<Longrightarrow> called_on opts r = Object_receiver r Object_prototype"
  using objCopy_wf [of r] by (simp add: called_on_def del: objCopy.simps split: option.splits)

lemma filterRecord_called_on:
  assumes "case opt_level opts of None \<Rightarrow> True
           | Some n \<Rightarrow> n = 0 \<or> \<not> js_lt_number pf (field r ''level'') n"
  shows "filterRecord pf r opts = run_conds (conditions opts) (called_on opts r)"
  using assms
  by (auto simp: filterRecord_def conditions_def called_on_def split: option.splits)

section \<open>The filter keeps a record when its level and all conditions pass\<close>

lemma run_conds_all:
  "\<forall>p\<in>set ps. never_raises p c \<Longrightarrow> run_conds ps c = Inr (\<forall>p\<in>set ps. p c = Inr True)"
proof (induction ps)
  case Nil
  then show ?case by simp
next
  case (Cons p ps)
  then obtain b where b: "p c = Inr b"
    by (cases "p c") (auto simp: never_raises_def)
  with Cons show ?case by (cases b) auto
qed

text \<open>
  For a record that has no property named \<^verbatim>\<open>__proto__\<close> and whose level is a positive
  integer, conditions that do not raise and any threshold (none, or a number):
  \<^verbatim>\<open>filterRecord\<close> returns true exactly when the level is at least the threshold, if one is
  set, and every condition returns a truthy value on the record.
\<close>

lemma filterRecord_keep_iff:
  assumes "wf_object r" and "\<not> has_key ''__proto__'' r"
    and "field r ''level'' = Some (JNum l)" and "0 < l"
    and "\<forall>p\<in>set (conditions opts). never_raises p (Object_receiver r Object_prototype)"
  shows "filterRecord pf r opts =
           Inr ((case opt_level opts of None \<Rightarrow> True | Some t \<Rightarrow> t \<le> l)
                \<and> (\<forall>p\<in>set (conditions opts). p (Object_receiver r Object_prototype) = Inr True))"
proof -
  let ?rec = "Object_receiver r Object_prototype"
  have on: "called_on opts r = ?rec"
    using assms(1,2) by (rule called_on_wf)
  have conds: "run_conds (conditions opts) ?rec = Inr (\<forall>p\<in>set (conditions opts). p ?rec = Inr True)"
    using assms(5) by (rule run_conds_all)
  show ?thesis
  proof (cases "case opt_level opts of None \<Rightarrow> True | Some t \<Rightarrow> t = 0 \<or> t \<le> l")
    case True
    then have "case opt_level opts of None \<Rightarrow> True
               | Some n \<Rightarrow> n = 0 \<or> \<not> js_lt_number pf (field r ''level'') n"
      using assms(3) by (auto simp: js_lt_number_def split: option.splits)
    then have "filterRecord pf r opts = run_conds (conditions opts) (called_on opts r)"
      by (rule filterRecord_called_on)
    with on conds True assms(4) show ?thesis
      by (auto split: option.splits)
  next
    case False
    then obtain t where t: "opt_level opts = Some t" "t \<noteq> 0" "\<not> t \<le> l"
      by (auto split: option.splits)
    then show ?thesis
      using assms(3) by (simp add: filterRecord_def js_lt_number_def)
  qed
qed

lemma wf_mk_record: "wf_object (mk_record l t m)"
  by (simp add: wf_object_def mk_record_def has_key_def is_array_index_def is_digit_def)

lemma valid_mk_record: "isValidRecord (mk_record l t m)"
  by (simp add: isValidRecord_def mk_record_def field_def)

text \<open>Scenario B: with the threshold 40 a record of level 50 is kept and a record of level
  30 is dropped.\<close>

lemma filterRecord_scenario_B:
  "filterRecord (demo_platform []) (mk_record 50 ''1970-01-01T00:00:01.000Z'' ''boom'') warn_opts
     = Inr True
   \<and> filterRecord (demo_platform []) (mk_record 30 ''1970-01-01T00:00:02.000Z'' ''fine'') warn_opts
     = Inr False"
proof -
  have conds: "\<forall>p\<in>set (conditions warn_opts).
                 never_raises p (Object_receiver (mk_record l t m) Object_prototype)" for l t m
    by (simp add: conditions_def warn_opts_def demo_opts_def never_raises_def)
  have lvl: "field (mk_record l t m) ''level'' = Some (JNum l)" for l t m
    by (simp add: mk_record_def field_def)
  have key: "\<not> has_key ''__proto__'' (mk_record l t m)" for l t m
    by (simp add: mk_record_def has_key_def)
  have a: "filterRecord (demo_platform []) (mk_record 50 ''1970-01-01T00:00:01.000Z'' ''boom'') warn_opts
             = Inr True"
    using filterRecord_keep_iff [OF wf_mk_record key lvl _ conds, of 50]
    by (simp add: warn_opts_def demo_opts_def conditions_def mk_record_def)
  have b: "filterRecord (demo_platform []) (mk_record 30 ''1970-01-01T00:00:02.000Z'' ''fine'') warn_opts
             = Inr False"
    using filterRecord_keep_iff [OF wf_mk_record key lvl _ conds, of 30]
    by (simp add: warn_opts_def demo_opts_def conditions_def mk_record_def)
  from a b show ?thesis by simp
qed

text \<open>
  C6 fails for a record that has a property named \<^verbatim>\<open>__proto__\<close>. The line of \<open>rec_proto\<close>
  parses to a valid record of level 30, and no threshold is set. The copy that \<^verbatim>\<open>objCopy\<close>
  makes lacks the property and has its value as prototype, so it inherits \<^verbatim>\<open>a\<close>. The
  condition \<^verbatim>\<open>this.a === undefined\<close> is true of the record, and the filter drops the
  record; the condition \<^verbatim>\<open>this.a === 1\<close> is false of the record, and the filter keeps it.
  The conditions of \<^verbatim>\<open>opts.condVm\<close>, which run on the record itself, do as the claim says.
\<close>

theorem filterRecord_proto_key:
  "json_parse (line_of rec_proto) = Some rec_proto
   \<and> isValidRecord rec_proto
   \<and> field rec_proto ''level'' = Some (JNum 30)
   \<and> objCopy (JObj rec_proto) = Object_receiver rec_one (Prototype (JObj [(''a'', JNum 1)]))
   \<and> a_is_undefined (Object_receiver rec_proto Object_prototype) = Inr True
   \<and> filterRecord demo_pf rec_proto (demo_opts\<lparr>condFuncs := Some [a_is_undefined]\<rparr>) = Inr False
   \<and> filterRecord demo_pf rec_proto (demo_opts\<lparr>condVm := Some [a_is_undefined]\<rparr>) = Inr True
   \<and> a_is_1 (Object_receiver rec_proto Object_prototype) = Inr False
   \<and> filterRecord demo_pf rec_proto (demo_opts\<lparr>condFuncs := Some [a_is_1]\<rparr>) = Inr True
   \<and> filterRecord demo_pf rec_proto (demo_opts\<lparr>condVm := Some [a_is_1]\<rparr>) = Inr False"
  by code_simp

section \<open>Classification of a line\<close>

lemma isValidRecord_required:
  "isValidRecord r = (\<not> list_ex (\<lambda>k. eq_null (field r k)) required_fields)"
  by (simp add: isValidRecord_def required_fields_def)

text \<open>\<^verbatim>\<open>handleLogLine\<close> does what the outcome says.\<close>

lemma handleLogLine_classify:
  "handleLogLine pf file ln opts stylize st =
     (if exiting st then st
      else case classify pf ln of
        PassThrough l \<Rightarrow> (if \<not> strict opts then emit (l @ [LF]) st else st)
      | Invalid l \<Rightarrow> (if \<not> strict opts then emit (l @ [LF]) st else st)
      | Valid r \<Rightarrow>
         (case filterRecord pf r opts of
            Inl err \<Rightarrow> throw err st
          | Inr keep \<Rightarrow>
              if \<not> keep then st
              else (case file of
                      None \<Rightarrow>
                        (case emitRecord pf r ln opts stylize of
                           Inl err \<Rightarrow> throw err st
                         | Inr res \<Rightarrow> emit (snd res) st)
                    | Some f \<Rightarrow> gotRecord pf f ln r opts stylize st)))"
  by (simp add: handleLogLine_def classify_def split: option.splits)

text \<open>
  C5, as the code has it. Every line has one of the three outcomes, and finding it raises
  nothing: pass-through exactly when the line is empty or its first character is not a
  brace (spaces before a brace are not skipped); invalid exactly when the line starts with
  a brace and the parse fails or a required field is missing or \<^verbatim>\<open>null\<close>; valid exactly when
  it starts with a brace, parses, and every required field is there. A line that is not
  valid is written unchanged with a line feed, or dropped in strict mode, and leaves the
  rest of the state as it was.
\<close>

theorem classify_outcomes:
  "(classify pf ln = PassThrough ln \<longleftrightarrow> (ln = [] \<or> hd ln \<noteq> CHR ''{''))
   \<and> (classify pf ln = Invalid ln \<longleftrightarrow>
        (ln \<noteq> [] \<and> hd ln = CHR ''{''
         \<and> (case JSON_parse pf ln of None \<Rightarrow> True
             | Some r \<Rightarrow> list_ex (\<lambda>k. eq_null (field r k)) required_fields)))
   \<and> (\<forall>r. classify pf ln = Valid r \<longleftrightarrow>
        (ln \<noteq> [] \<and> hd ln = CHR ''{'' \<and> JSON_parse pf ln = Some r
         \<and> list_all (\<lambda>k. \<not> eq_null (field r k)) required_fields))
   \<and> (classify pf ln = PassThrough ln \<or> classify pf ln = Invalid ln
        \<or> (\<exists>r. classify pf ln = Valid r))
   \<and> ((\<forall>r. classify pf ln \<noteq> Valid r) \<longrightarrow>
        handleLogLine pf file ln opts stylize st =
          (if exiting st \<or> strict opts then st else emit (ln @ [LF]) st))"
proof -
  have valid: "isValidRecord r = list_all (\<lambda>k. \<not> eq_null (field r k)) required_fields" for r
    by (simp add: isValidRecord_required list_ex_iff list_all_iff)
  have a: "classify pf ln = PassThrough ln \<longleftrightarrow> (ln = [] \<or> hd ln \<noteq> CHR ''{'')"
    by (simp add: classify_def split: option.splits)
  have b: "classify pf ln = Invalid ln \<longleftrightarrow>
        (ln \<noteq> [] \<and> hd ln = CHR ''{''
         \<and> (case JSON_parse pf ln of None \<Rightarrow> True
             | Some r \<Rightarrow> list_ex (\<lambda>k. eq_null (field r k)) required_fields))"
    by (simp add: classify_def isValidRecord_required split: option.splits)
  have c: "classify pf ln = Valid r \<longleftrightarrow>
        (ln \<noteq> [] \<and> hd ln = CHR ''{'' \<and> JSON_parse pf ln = Some r
         \<and> list_all (\<lambda>k. \<not> eq_null (field r k)) required_fields)" for r
    by (auto simp: classify_def valid split: option.splits)
  have d: "classify pf ln = PassThrough ln \<or> classify pf ln = Invalid ln
        \<or> (\<exists>r. classify pf ln = Valid r)"
    by (simp add: classify_def split: option.splits)
  have e: "(\<forall>r. classify pf ln \<noteq> Valid r) \<longrightarrow>
        handleLogLine pf file ln opts stylize st =
          (if exiting st \<or> strict opts then st else emit (ln @ [LF]) st)"
    by (auto simp: handleLogLine_classify classify_def split: option.splits)
  from a b c d e show ?thesis by blast
qed

theorem classify_outcomes_witness:
  "classify demo_pf ''not json at all'' = PassThrough ''not json at all''
   \<and> out (handleLogLine demo_pf None ''not json at all'' demo_opts (stylize_of demo_opts)
            (main_state []))
       = [''not json at all'' @ [LF]]
   \<and> out (handleLogLine demo_pf None ''not json at all'' (demo_opts\<lparr>strict := True\<rparr>)
            (stylize_of demo_opts) (main_state []))
       = []"
  using classify_outcomes [of demo_pf "''not json at all''" None demo_opts
          "stylize_of demo_opts" "main_state []"]
        classify_outcomes [of demo_pf "''not json at all''" None "demo_opts\<lparr>strict := True\<rparr>"
          "stylize_of demo_opts" "main_state []"]
  by (simp add: main_state_def emit_def demo_opts_def)

text \<open>
  The claim as stated fails on a record line that starts with a space: the code passes it
  through, the specification's wording has it valid.
\<close>

theorem classify_leading_space_counterexample:
  "classify demo_pf ('' '' @ line_of rec_one) = PassThrough ('' '' @ line_of rec_one)
   \<and> spec_classify demo_pf ('' '' @ line_of rec_one) = Valid rec_one"
  by code_simp

section \<open>An exception in a condition ends the process\<close>

lemma run_conds_raises:
  "\<forall>q\<in>set ps. q c = Inr True \<Longrightarrow> p c = Inl err \<Longrightarrow> run_conds (ps @ p # qs) c = Inl err"
  by (induction ps) auto

lemma run_crashed: "crashed st \<noteq> None \<Longrightarrow> run pf opts evs st = st"
  by (cases evs) auto

lemma handle_lines_crashed:
  "crashed st \<noteq> None \<Longrightarrow> handle_lines pf file lns opts stylize st = st"
  by (cases lns) auto

text \<open>
  C2, as the code has it. \<^verbatim>\<open>filterRecord\<close> calls the conditions without a \<^verbatim>\<open>try\<close>. When the
  level passes, the earlier conditions are truthy and a condition raises, each on the value
  that \<^verbatim>\<open>filterRecord\<close> calls it on for the record (the copy of the record for
  \<^verbatim>\<open>opts.condFuncs\<close>, the record for \<^verbatim>\<open>opts.condVm\<close>), the exception leaves \<^verbatim>\<open>filterRecord\<close>
  and \<^verbatim>\<open>handleLogLine\<close>; nothing is written for the record, the lines that follow in the
  chunk are not handled, and no later event is: the \<^verbatim>\<open>uncaughtException\<close> handler has ended
  the process.
\<close>

theorem condition_error_is_fatal:
  assumes "\<not> exiting st"
    and "classify pf ln = Valid r"
    and "case opt_level opts of None \<Rightarrow> True
         | Some n \<Rightarrow> n = 0 \<or> \<not> js_lt_number pf (field r ''level'') n"
    and "conditions opts = ps @ p # qs"
    and "\<forall>q\<in>set ps. q (called_on opts r) = Inr True"
    and "p (called_on opts r) = Inl err"
  shows "filterRecord pf r opts = Inl err
         \<and> handleLogLine pf file ln opts stylize st = throw err st
         \<and> out (throw err st) = out st
         \<and> handle_lines pf file lns opts stylize (throw err st) = throw err st
         \<and> run pf opts evs (throw err st) = throw err st"
proof -
  have conds: "run_conds (conditions opts) (called_on opts r) = Inl err"
    using assms(4-6) by (simp add: run_conds_raises)
  have f: "filterRecord pf r opts = Inl err"
    using filterRecord_called_on [OF assms(3)] conds by simp
  have h: "handleLogLine pf file ln opts stylize st = throw err st"
    using assms(1,2) f by (simp add: handleLogLine_classify)
  have c: "crashed (throw err st) \<noteq> None"
    by (simp add: throw_def)
  from f h c show ?thesis
    by (simp add: run_crashed handle_lines_crashed) (simp add: throw_def)
qed

theorem condition_error_is_fatal_witness:
  "called_on cond_opts rec_one = Object_receiver rec_one Object_prototype
   \<and> user_id_is_7 (called_on cond_opts rec_one) = Inl TypeError
   \<and> filterRecord demo_pf rec_one cond_opts = Inl TypeError
   \<and> handleLogLine demo_pf None (line_of rec_one) cond_opts (stylize_of cond_opts) (main_state [])
       = throw TypeError (main_state [])
   \<and> run demo_pf cond_opts [StdinData (line_of rec_user @ [LF]), StdinEnd]
        (throw TypeError (main_state []))
       = throw TypeError (main_state [])"
proof -
  have 1: "\<not> exiting (main_state [])"
    by (simp add: main_state_def)
  have 2: "classify demo_pf (line_of rec_one) = Valid rec_one"
    by code_simp
  have 3: "case opt_level cond_opts of None \<Rightarrow> True
           | Some n \<Rightarrow> n = 0 \<or> \<not> js_lt_number demo_pf (field rec_one ''level'') n"
    by (simp add: cond_opts_def demo_opts_def)
  have 4: "conditions cond_opts = [] @ user_id_is_7 # []"
    by (simp add: conditions_def cond_opts_def demo_opts_def)
  have 5: "\<forall>q\<in>set []. q (called_on cond_opts rec_one) = Inr True"
    by simp
  have on: "called_on cond_opts rec_one = Object_receiver rec_one Object_prototype"
    by code_simp
  have 6: "user_id_is_7 (called_on cond_opts rec_one) = Inl TypeError"
    unfolding on by code_simp
  from condition_error_is_fatal [OF 1 2 3 4 5 6, of None "stylize_of cond_opts" "[]"
         "[StdinData (line_of rec_user @ [LF]), StdinEnd]"] on 6
  show ?thesis
    by blast
qed

text \<open>
  The claim as stated fails: the first record makes the condition raise, and the second
  record, which the condition accepts, is never written; alone it is.
\<close>

theorem condition_error_counterexample:
  "crashed (run demo_pf cond_opts
              [StdinData (line_of rec_one @ [LF] @ line_of rec_user @ [LF]), StdinEnd]
              (main_state []))
     = Some TypeError
   \<and> out (run demo_pf cond_opts
              [StdinData (line_of rec_one @ [LF] @ line_of rec_user @ [LF]), StdinEnd]
              (main_state []))
     = []
   \<and> out (run demo_pf cond_opts [StdinData (line_of rec_user @ [LF]), StdinEnd] (main_state []))
     = [''[1970-01-01T00:00:02.000Z]  INFO: app/123 on host: two'' @ [LF]
        @ ''    user: {'' @ [LF]
        @ ''      '' @ [DQ] @ ''id'' @ [DQ] @ '': 7'' @ [LF]
        @ ''    }'' @ [LF]]"
  by code_simp

section \<open>A line terminator split between two chunks\<close>

text \<open>
  C4 at the chunks \<^verbatim>\<open>"a\r"\<close>, \<^verbatim>\<open>"\nb\n"\<close>. The lines are no JSON, so each line that reaches
  \<^verbatim>\<open>handleLogLine\<close> is written with a line feed after it. Read in one piece the text gives
  the lines \<^verbatim>\<open>a\<close> and \<^verbatim>\<open>b\<close>; with the carriage return at the end of the first chunk the
  first line is \<^verbatim>\<open>"a\r"\<close>, for a file and for the standard input alike.
\<close>

theorem crlf_split_between_chunks:
  "out (run demo_pf demo_opts
          [Data ''f.log'' (''a'' @ [CR]), Data ''f.log'' ([LF] @ ''b'' @ [LF]), End ''f.log'']
          (main_state [''f.log'']))
     = [''a'' @ [CR] @ [LF], ''b'' @ [LF]]
   \<and> out (run demo_pf demo_opts
          [Data ''f.log'' (''a'' @ [CR, LF] @ ''b'' @ [LF]), End ''f.log'']
          (main_state [''f.log'']))
     = [''a'' @ [LF], ''b'' @ [LF]]
   \<and> out (run demo_pf demo_opts
          [StdinData (''a'' @ [CR]), StdinData ([LF] @ ''b'' @ [LF]), StdinEnd] (main_state []))
     = [''a'' @ [CR] @ [LF], ''b'' @ [LF]]
   \<and> out (run demo_pf demo_opts
          [StdinData (''a'' @ [CR, LF] @ ''b'' @ [LF]), StdinEnd] (main_state []))
     = [''a'' @ [LF], ''b'' @ [LF]]"
  by code_simp

section \<open>Records left in the table when the last stream ends\<close>

text \<open>
  C1 at two files: \<^verbatim>\<open>a.log\<close> holds one record and a line feed, \<^verbatim>\<open>b.log\<close> holds the
  text \<^verbatim>\<open>garbage\<close> with no line feed after it. When the record arrives first, \<^verbatim>\<open>b.log\<close>
  is blocking: the record waits and \<^verbatim>\<open>a.log\<close> is paused. The \<^verbatim>\<open>end\<close> handler of
  \<^verbatim>\<open>b.log\<close> then hands the unterminated text to \<^verbatim>\<open>handleLogLine\<close>, which writes it and
  returns without a call of \<^verbatim>\<open>emitNextRecord\<close>: the record stays in the table, with
  \<^verbatim>\<open>a.log\<close> paused, and is never written, whether the \<^verbatim>\<open>end\<close> of \<^verbatim>\<open>a.log\<close> came
  before or not. When \<^verbatim>\<open>b.log\<close> is read first, the record is written.
\<close>

theorem record_lost_at_end_of_stream:
  "out (run demo_pf demo_opts
          [Data ''a.log'' (line_of rec_one @ [LF]), Data ''b.log'' ''garbage'', End ''b.log'']
          (main_state [''a.log'', ''b.log'']))
     = [''garbage'' @ [LF]]
   \<and> table_view (run demo_pf demo_opts
          [Data ''a.log'' (line_of rec_one @ [LF]), Data ''b.log'' ''garbage'', End ''b.log'']
          (main_state [''a.log'', ''b.log'']))
     = [(''a.log'', [line_of rec_one], False, True), (''b.log'', [], True, False)]
   \<and> out (run demo_pf demo_opts
          [Data ''a.log'' (line_of rec_one @ [LF]), End ''a.log'',
           Data ''b.log'' ''garbage'', End ''b.log'']
          (main_state [''a.log'', ''b.log'']))
     = [''garbage'' @ [LF]]
   \<and> out (run demo_pf demo_opts
          [Data ''b.log'' ''garbage'', End ''b.log'',
           Data ''a.log'' (line_of rec_one @ [LF]), End ''a.log'']
          (main_state [''a.log'', ''b.log'']))
     = [''garbage'' @ [LF], ''[1970-01-01T00:00:01.000Z]  INFO: app/123 on host: one'' @ [LF]]"
  by code_simp

section \<open>Pausing and resuming\<close>
































section \<open>The leftover fields\<close>

lemma JSON_stringify_string: "JSON_stringify (JStr t) n = quote t"
  by (simp add: JSON_stringify_def)

lemma leftover_field_cases:
  "leftover_field e st =
     (if to_details e then (fst st, snd st @ [detail_text e])
      else (fst st @ [extra_text e], snd st))"
  by (cases "snd e")
     (auto simp: leftover_field_def to_details_def detail_text_def extra_text_def value_text_def
                 JSON_stringify_string Let_def)

text \<open>
  C8, as the code has it. The loop adds, for every leftover field in the order of the
  record, one entry: to the details (\<^verbatim>\<open>key: value\<close>, indented) when the text of the value
  has a line feed or more than 50 characters, else to the extras (\<^verbatim>\<open>key=value\<close>), where
  the value is JSON-quoted exactly when it is a string that contains a space character
  or is empty.
\<close>

theorem leftover_loop_extras_details:
  "leftover_loop kvs (extras, details) =
     (extras @ map extra_text (filter (\<lambda>e. \<not> to_details e) kvs),
      details @ map detail_text (filter to_details kvs))"
proof (induction kvs arbitrary: extras details)
  case Nil
  show ?case by simp
next
  case (Cons e kvs)
  show ?case
    by (cases "to_details e") (simp_all add: leftover_field_cases Cons.IH)
qed

text \<open>
  The claim as stated fails for a string with a tab: it contains whitespace, and the code
  writes it without quotes.
\<close>

theorem tab_not_quoted_counterexample:
  "leftover_loop [(''note'', JStr (''a'' @ [CHR 0x09] @ ''b''))] ([], [])
     = ([''note=a'' @ [CHR 0x09] @ ''b''], [])
   \<and> spec_extra_text (''note'', JStr (''a'' @ [CHR 0x09] @ ''b''))
     = ''note='' @ [DQ] @ ''a'' @ [BSL] @ ''tb'' @ [DQ]
   \<and> emitRecord demo_pf rec_tab (line_of rec_tab) demo_opts (stylize_of demo_opts)
     = Inr ([(''note'', JStr (''a'' @ [CHR 0x09] @ ''b''))],
            ''[1970-01-01T00:00:01.000Z]  INFO: app/123 on host: one (note=a''
              @ [CHR 0x09] @ ''b)'' @ [LF])"
  by code_simp

section \<open>What rendering leaves of the record\<close>





















section \<open>Conditions run on a copy, or on the record\<close>

text \<open>
  The objects that \<open>store_value\<close> makes for a value are read back as that value, and the
  copy that \<open>objCopy_store\<close> makes of the record is read as the copy that \<open>objCopy\<close> makes.
\<close>

lemma kept_in_refl: "kept_in s s"
  by (simp add: kept_in_def)

lemma kept_in_trans: "kept_in s t \<Longrightarrow> kept_in t u \<Longrightarrow> kept_in s u"
  by (simp add: kept_in_def)

lemma those_map_mono:
  "those (map f xs) = Some ys \<Longrightarrow> (\<And>x y. x \<in> set xs \<Longrightarrow> f x = Some y \<Longrightarrow> g x = Some y)
     \<Longrightarrow> those (map g xs) = Some ys"
proof (induction xs arbitrary: ys)
  case Nil
  then show ?case by simp
next
  case (Cons x xs)
  from Cons.prems(1) obtain y zs where y: "f x = Some y" and zs: "those (map f xs) = Some zs"
    and ys: "ys = y # zs"
    by (auto split: option.splits)
  have "g x = Some y" using Cons.prems(2) y by simp
  moreover have "those (map g xs) = Some zs"
    using Cons.IH [OF zs] Cons.prems(2) by simp
  ultimately show ?case using ys by simp
qed

lemma value_at_mono:
  "value_at n s v = Some j \<Longrightarrow> kept_in s t \<Longrightarrow> n \<le> m \<Longrightarrow> value_at m t v = Some j"
proof (induction n arbitrary: m v j)
  case 0
  then show ?case by (cases v) simp_all
next
  case (Suc n)
  show ?case
  proof (cases v)
    case (Prim p)
    with Suc.prems show ?thesis by simp
  next
    case (Ref a)
    from Suc.prems(3) obtain m' where m: "m = Suc m'" and le: "n \<le> m'"
      by (cases m) auto
    from Suc.prems(1) Ref obtain ob vs where ob: "cells s a = Some ob"
      and vs: "those (map (\<lambda>e. value_at n s (snd e)) (props ob)) = Some vs"
      and j: "j = (if is_array ob then JArr vs else JObj (zip (map fst (props ob)) vs))"
      by (auto split: option.splits)
    have ob': "cells t a = Some ob"
      using ob Suc.prems(2) by (simp add: kept_in_def)
    have "those (map (\<lambda>e. value_at m' t (snd e)) (props ob)) = Some vs"
      using vs
    proof (rule those_map_mono)
      fix e y assume "value_at n s (snd e) = Some y"
      then show "value_at m' t (snd e) = Some y"
        using Suc.IH Suc.prems(2) le by blast
    qed
    with ob' j Ref m show ?thesis by simp
  qed
qed

lemma alloc_props:
  assumes "fresh_above s"
  shows "kept_in s (snd (alloc ob s))" and "fresh_above (snd (alloc ob s))"
    and "cells (snd (alloc ob s)) (fst (alloc ob s)) = Some ob"
    and "next_addr (snd (alloc ob s)) = Suc (next_addr s)"
    and "fst (alloc ob s) = next_addr s"
  using assms by (auto simp: alloc_def kept_in_def fresh_above_def)

lemma those_value_at_mono:
  assumes "those (map (\<lambda>e. value_at n s (f e)) xs) = Some ys" and "kept_in s t" and "n \<le> m"
  shows "those (map (\<lambda>e. value_at m t (f e)) xs) = Some ys"
  using assms(1)
proof (rule those_map_mono)
  fix x y assume "value_at n s (f x) = Some y"
  then show "value_at m t (f x) = Some y"
    using assms(2,3) by (rule value_at_mono)
qed

lemma map_snd_zip_fun:
  "length ks = length vs \<Longrightarrow> map (\<lambda>e. f (snd e)) (zip ks vs) = map f vs"
  by (induction ks vs rule: list_induct2) simp_all

lemma loaded_trans: "loaded s t \<Longrightarrow> loaded t u \<Longrightarrow> loaded s u"
  by (auto simp: loaded_def intro: kept_in_trans)

lemma loaded_alloc: "fresh_above s \<Longrightarrow> loaded s (snd (alloc ob s))"
  by (simp add: loaded_def alloc_props)

lemma store_value_reads_back:
  "fresh_above s \<Longrightarrow>
     loaded s (snd (store_value j s))
     \<and> value_at (Suc (next_addr (snd (store_value j s)) - next_addr s))
          (snd (store_value j s)) (fst (store_value j s)) = Some j"
  "fresh_above s \<Longrightarrow>
     loaded s (snd (store_elems xs s))
     \<and> those (map (value_at (Suc (next_addr (snd (store_elems xs s)) - next_addr s))
                     (snd (store_elems xs s))) (fst (store_elems xs s))) = Some xs"
  "fresh_above s \<Longrightarrow>
     loaded s (snd (store_members kvs s))
     \<and> map fst (fst (store_members kvs s)) = map fst kvs
     \<and> those (map (\<lambda>e. value_at (Suc (next_addr (snd (store_members kvs s)) - next_addr s))
                          (snd (store_members kvs s)) (snd e)) (fst (store_members kvs s)))
         = Some (map snd kvs)"
proof (induction j s and xs s and kvs s rule: store_value_store_elems_store_members.induct)
  case (6 xs s)
  let ?m = "store_elems xs s"
  let ?ob = "\<lparr>is_array = True, props = zip (map digits [0..<length (fst ?m)]) (fst ?m),
             link = Builtin\<rparr>"
  let ?r = "alloc ?ob (snd ?m)"
  from 6 have m: "loaded s (snd ?m)"
    and vs: "those (map (value_at (Suc (next_addr (snd ?m) - next_addr s)) (snd ?m)) (fst ?m)) = Some xs"
    by simp_all
  from m have fr: "fresh_above (snd ?m)" and le: "next_addr s \<le> next_addr (snd ?m)"
    by (simp_all add: loaded_def)
  have l: "loaded s (snd ?r)"
    using m loaded_alloc [OF fr] by (rule loaded_trans)
  have k: "kept_in (snd ?m) (snd ?r)" using fr by (rule alloc_props)
  have n: "next_addr (snd ?r) - next_addr s = Suc (next_addr (snd ?m) - next_addr s)"
    using alloc_props(4) [OF fr, of ?ob] le by simp
  have vs': "those (map (value_at (Suc (next_addr (snd ?m) - next_addr s)) (snd ?r)) (fst ?m)) = Some xs"
    using those_value_at_mono [where f = "\<lambda>v. v", OF vs k le_refl] .
  have "map (\<lambda>e. value_at (Suc (next_addr (snd ?m) - next_addr s)) (snd ?r) (snd e)) (props ?ob)
          = map (value_at (Suc (next_addr (snd ?m) - next_addr s)) (snd ?r)) (fst ?m)"
    by (simp add: map_snd_zip_fun)
  then have "value_at (Suc (Suc (next_addr (snd ?m) - next_addr s))) (snd ?r) (Ref (fst ?r))
                  = Some (JArr xs)"
    using alloc_props(3) [OF fr, of ?ob] vs' by simp
  with l n show ?case by (simp add: Let_def)
next
  case (7 kvs s)
  let ?m = "store_members kvs s"
  let ?ob = "\<lparr>is_array = False, props = fst ?m, link = Builtin\<rparr>"
  let ?r = "alloc ?ob (snd ?m)"
  from 7 have m: "loaded s (snd ?m)" and ks: "map fst (fst ?m) = map fst kvs"
    and vs: "those (map (\<lambda>e. value_at (Suc (next_addr (snd ?m) - next_addr s)) (snd ?m) (snd e))
                     (fst ?m)) = Some (map snd kvs)"
    by simp_all
  from m have fr: "fresh_above (snd ?m)" and le: "next_addr s \<le> next_addr (snd ?m)"
    by (simp_all add: loaded_def)
  have l: "loaded s (snd ?r)"
    using m loaded_alloc [OF fr] by (rule loaded_trans)
  have k: "kept_in (snd ?m) (snd ?r)" using fr by (rule alloc_props)
  have n: "next_addr (snd ?r) - next_addr s = Suc (next_addr (snd ?m) - next_addr s)"
    using alloc_props(4) [OF fr, of ?ob] le by simp
  have vs': "those (map (\<lambda>e. value_at (Suc (next_addr (snd ?m) - next_addr s)) (snd ?r) (snd e))
                     (fst ?m)) = Some (map snd kvs)"
    using vs k le_refl by (rule those_value_at_mono)
  have "value_at (Suc (Suc (next_addr (snd ?m) - next_addr s))) (snd ?r) (Ref (fst ?r))
          = Some (JObj (zip (map fst kvs) (map snd kvs)))"
    using alloc_props(3) [OF fr, of ?ob] vs' ks by simp
  with l n show ?case by (simp add: Let_def zip_map_fst_snd)
next
  case (9 x xs s)
  let ?v = "store_value x s"
  let ?m = "store_elems xs (snd ?v)"
  from 9(1) [OF 9(3)] have v: "loaded s (snd ?v)"
    and x: "value_at (Suc (next_addr (snd ?v) - next_addr s)) (snd ?v) (fst ?v) = Some x"
    by simp_all
  from v have fr: "fresh_above (snd ?v)" by (simp add: loaded_def)
  from 9(2) [OF refl fr] have m: "loaded (snd ?v) (snd ?m)"
    and xs: "those (map (value_at (Suc (next_addr (snd ?m) - next_addr (snd ?v))) (snd ?m)) (fst ?m))
               = Some xs"
    by simp_all
  have l: "loaded s (snd ?m)" using v m by (rule loaded_trans)
  from v m have le: "next_addr s \<le> next_addr (snd ?v)" "next_addr (snd ?v) \<le> next_addr (snd ?m)"
    and k: "kept_in (snd ?v) (snd ?m)"
    by (simp_all add: loaded_def)
  let ?n = "Suc (next_addr (snd ?m) - next_addr s)"
  have x': "value_at ?n (snd ?m) (fst ?v) = Some x"
    using x k by (rule value_at_mono) (use le in simp)
  have "Suc (next_addr (snd ?m) - next_addr (snd ?v)) \<le> ?n" using le by simp
  then have xs': "those (map (value_at ?n (snd ?m)) (fst ?m)) = Some xs"
    using those_value_at_mono [where f = "\<lambda>v. v", OF xs kept_in_refl] by simp
  from l x' xs' show ?case by (simp add: Let_def)
next
  case (11 e es s)
  let ?v = "store_value (snd e) s"
  let ?m = "store_members es (snd ?v)"
  from 11(1) [OF 11(3)] have v: "loaded s (snd ?v)"
    and x: "value_at (Suc (next_addr (snd ?v) - next_addr s)) (snd ?v) (fst ?v) = Some (snd e)"
    by simp_all
  from v have fr: "fresh_above (snd ?v)" by (simp add: loaded_def)
  from 11(2) [OF refl fr] have m: "loaded (snd ?v) (snd ?m)"
    and ks: "map fst (fst ?m) = map fst es"
    and xs: "those (map (\<lambda>e. value_at (Suc (next_addr (snd ?m) - next_addr (snd ?v))) (snd ?m) (snd e))
                     (fst ?m)) = Some (map snd es)"
    by simp_all
  have l: "loaded s (snd ?m)" using v m by (rule loaded_trans)
  from v m have le: "next_addr s \<le> next_addr (snd ?v)" "next_addr (snd ?v) \<le> next_addr (snd ?m)"
    and k: "kept_in (snd ?v) (snd ?m)"
    by (simp_all add: loaded_def)
  let ?n = "Suc (next_addr (snd ?m) - next_addr s)"
  have x': "value_at ?n (snd ?m) (fst ?v) = Some (snd e)"
    using x k by (rule value_at_mono) (use le in simp)
  have "Suc (next_addr (snd ?m) - next_addr (snd ?v)) \<le> ?n" using le by simp
  then have xs': "those (map (\<lambda>e. value_at ?n (snd ?m) (snd e)) (fst ?m)) = Some (map snd es)"
    using those_value_at_mono [OF xs kept_in_refl] by simp
  from l x' xs' ks show ?case by (simp add: Let_def)
qed (simp_all add: loaded_def kept_in_refl json_of_prim_def)

lemma same_keys: "list_all2 (same n s) ps kvs \<Longrightarrow> map fst ps = map fst kvs"
  by (induction rule: list_all2_induct) (simp_all add: same_def)

lemma same_values:
  "list_all2 (same n s) ps kvs \<Longrightarrow> those (map (\<lambda>e. value_at n s (snd e)) ps) = Some (map snd kvs)"
  by (induction rule: list_all2_induct) (simp_all add: same_def)

lemma same_intro:
  "map fst ps = map fst kvs \<Longrightarrow> those (map (\<lambda>e. value_at n s (snd e)) ps) = Some (map snd kvs)
     \<Longrightarrow> list_all2 (same n s) ps kvs"
proof (induction ps arbitrary: kvs)
  case Nil
  then show ?case by simp
next
  case (Cons e ps)
  from Cons.prems(1) obtain f fs where kvs: "kvs = f # fs" by (cases kvs) auto
  with Cons.prems have "fst e = fst f" "map fst ps = map fst fs"
    "value_at n s (snd e) = Some (snd f)"
    "those (map (\<lambda>e. value_at n s (snd e)) ps) = Some (map snd fs)"
    by (auto split: option.splits)
  with Cons.IH [of fs] kvs show ?case by (simp add: same_def)
qed

lemma same_mono:
  assumes "list_all2 (same n s) ps kvs" and "kept_in s t" and "n \<le> m"
  shows "list_all2 (same m t) ps kvs"
  using assms(1)
proof (rule list_all2_mono)
  fix e f assume "same n s e f"
  then show "same m t e f"
    using value_at_mono [OF _ assms(2,3)] by (simp add: same_def)
qed

lemma same_proto_mono:
  "same_proto n s l pr \<Longrightarrow> kept_in s t \<Longrightarrow> n \<le> m \<Longrightarrow> same_proto m t l pr"
  using value_at_mono [of n s _ _ t m]
  by (auto simp: same_proto_def split: link.splits prototype.splits)

lemma all2_takeWhile:
  "list_all2 R xs ys \<Longrightarrow> (\<And>x y. R x y \<Longrightarrow> P x = Q y)
     \<Longrightarrow> list_all2 R (takeWhile P xs) (takeWhile Q ys) \<and> list_all2 R (dropWhile P xs) (dropWhile Q ys)"
  by (induction rule: list_all2_induct) auto

lemma obj_set_same:
  assumes "list_all2 (same n s) ps kvs" and "value_at n s v = Some j"
  shows "list_all2 (same n s) (obj_set k v ps) (obj_set k j kvs)"
proof -
  have keys: "map fst ps = map fst kvs" using assms(1) by (rule same_keys)
  then have hk: "has_key k ps = has_key k kvs" by (simp add: has_key_def)
  have new: "same n s (k, v) (k, j)" using assms(2) by (simp add: same_def)
  show ?thesis
  proof (cases "has_key k kvs")
    case True
    have "list_all2 (same n s) (map (\<lambda>e. if fst e = k then (k, v) else e) ps)
            (map (\<lambda>e. if fst e = k then (k, j) else e) kvs)"
      unfolding list_all2_map1 list_all2_map2
      using assms(1) by (rule list_all2_mono) (use new in \<open>auto simp: same_def\<close>)
    with True hk show ?thesis by (simp add: obj_set_def)
  next
    case False
    have bi: "before_index k e = before_index k f" if "same n s e f" for e f
      using that by (simp add: before_index_def same_def)
    from all2_takeWhile [OF assms(1) bi]
    have "list_all2 (same n s) (takeWhile (before_index k) ps) (takeWhile (before_index k) kvs)"
      and "list_all2 (same n s) (dropWhile (before_index k) ps) (dropWhile (before_index k) kvs)"
      by simp_all
    with False hk new assms(1) show ?thesis
      by (auto simp: obj_set_def intro!: list_all2_appendI)
  qed
qed

lemma copy_prop_same:
  assumes "list_all2 (same n s) (fst c) (fst d)" and "same_proto n s (snd c) (snd d)"
    and "value_at n s v = Some j"
  shows "list_all2 (same n s) (fst (copy_prop_store k v c)) (fst (copy_prop k j d))
         \<and> same_proto n s (snd (copy_prop_store k v c)) (snd (copy_prop k j d))"
proof -
  have b: "snd c = Builtin \<longleftrightarrow> snd d = Object_prototype"
    using assms(2) by (auto simp: same_proto_def split: link.splits prototype.splits)
  show ?thesis
  proof (cases "k = ''__proto__'' \<and> snd c = Builtin")
    case True
    have "same_proto n s (set_link v Builtin) (set_proto j Object_prototype)"
    proof (cases v)
      case (Prim p)
      with assms(3) show ?thesis
        by (cases p) (auto simp: set_link_def set_proto_def same_proto_def json_of_prim_def)
    next
      case (Ref a)
      with assms(3) obtain n' where n: "n = Suc n'" by (cases n) auto
      with Ref assms(3) show ?thesis
        by (auto simp: set_link_def set_proto_def same_proto_def split: option.splits if_splits)
    qed
    with True b assms(1) show ?thesis
      by (simp add: copy_prop_store_def copy_prop_def)
  next
    case False
    with b assms obj_set_same [OF assms(1,3), of k] show ?thesis
      by (auto simp: copy_prop_store_def copy_prop_def)
  qed
qed

lemma copy_props_same:
  assumes "list_all2 (same n s) es fs"
    and "list_all2 (same n s) (fst c) (fst d)" and "same_proto n s (snd c) (snd d)"
  shows "list_all2 (same n s) (fst (copy_props_store es c)) (fst (copy_props fs d))
         \<and> same_proto n s (snd (copy_props_store es c)) (snd (copy_props fs d))"
  using assms
proof (induction arbitrary: c d rule: list_all2_induct)
  case Nil
  then show ?case by simp
next
  case (Cons e es f fs)
  from Cons.hyps(1) have k: "fst e = fst f" and v: "value_at n s (snd e) = Some (snd f)"
    by (simp_all add: same_def)
  from copy_prop_same [OF Cons.prems v, of "fst e"] k
  have "list_all2 (same n s) (fst (copy_prop_store (fst e) (snd e) c)) (fst (copy_prop (fst f) (snd f) d))"
    and "same_proto n s (snd (copy_prop_store (fst e) (snd e) c)) (snd (copy_prop (fst f) (snd f) d))"
    by simp_all
  from Cons.IH [OF this] show ?case by simp
qed

lemma fresh_above_empty: "fresh_above empty_store"
  by (simp add: fresh_above_def empty_store_def)

lemma zip_keys_values: "map fst ps = map fst kvs \<Longrightarrow> zip (map fst ps) (map snd kvs) = kvs"
  by (simp add: zip_map_fst_snd)

lemma next_addr_empty: "next_addr empty_store = 0"
  by (simp add: empty_store_def)

lemma store_value_object:
  "store_value (JObj kvs) s =
     (Ref (fst (alloc \<lparr>is_array = False, props = fst (store_members kvs s), link = Builtin\<rparr>
                  (snd (store_members kvs s)))),
      snd (alloc \<lparr>is_array = False, props = fst (store_members kvs s), link = Builtin\<rparr>
             (snd (store_members kvs s))))"
  by (simp add: Let_def)

lemma load_record:
  fixes r :: jobject
  defines "l \<equiv> store_value (JObj r) empty_store"
  shows "\<exists>a ps. fst l = Ref a
           \<and> cells (snd l) a = Some \<lparr>is_array = False, props = ps, link = Builtin\<rparr>
           \<and> list_all2 (same (next_addr (snd l)) (snd l)) ps r"
    and "fresh_above (snd l)"
    and "record_at (snd l) (fst l) = Some r"
proof -
  define m where "m = store_members r empty_store"
  define ob where "ob = \<lparr>is_array = False, props = fst m, link = Builtin\<rparr>"
  define t where "t = alloc ob (snd m)"
  have l: "l = (Ref (fst t), snd t)"
    unfolding l_def t_def ob_def m_def by (rule store_value_object)
  from store_value_reads_back(3) [OF fresh_above_empty, of r]
  have m: "loaded empty_store (snd m)" and ks: "map fst (fst m) = map fst r"
    and vs: "those (map (\<lambda>e. value_at (Suc (next_addr (snd m))) (snd m) (snd e)) (fst m))
               = Some (map snd r)"
    unfolding m_def next_addr_empty by simp_all
  from m have fr: "fresh_above (snd m)" by (simp add: loaded_def)
  have k: "kept_in (snd m) (snd t)" and fr': "fresh_above (snd t)"
    and cell: "cells (snd t) (fst t) = Some ob"
    and n: "next_addr (snd t) = Suc (next_addr (snd m))"
    unfolding t_def using fr by (rule alloc_props)+
  have "list_all2 (same (Suc (next_addr (snd m))) (snd m)) (fst m) r"
    using ks vs by (rule same_intro)
  then have "list_all2 (same (next_addr (snd t)) (snd t)) (fst m) r"
    using k by (rule same_mono) (simp add: n)
  with cell show "\<exists>a ps. fst l = Ref a
           \<and> cells (snd l) a = Some \<lparr>is_array = False, props = ps, link = Builtin\<rparr>
           \<and> list_all2 (same (next_addr (snd l)) (snd l)) ps r"
    unfolding l ob_def by (intro exI [of _ "fst t"] exI [of _ "fst m"]) simp
  show "fresh_above (snd l)"
    using fr' unfolding l by simp
  from store_value_reads_back(1) [OF fresh_above_empty, of "JObj r"]
  have "value_at (Suc (next_addr (snd l))) (snd l) (fst l) = Some (JObj r)"
    unfolding l_def next_addr_empty by (simp del: store_value.simps)
  then show "record_at (snd l) (fst l) = Some r"
    by (simp add: record_at_def)
qed

lemma record_at_mono:
  "record_at s v = Some r \<Longrightarrow> kept_in s t \<Longrightarrow> next_addr s \<le> next_addr t \<Longrightarrow> record_at t v = Some r"
proof -
  assume a: "record_at s v = Some r" and k: "kept_in s t" and n: "next_addr s \<le> next_addr t"
  from a have "value_at (Suc (next_addr s)) s v = Some (JObj r)"
    by (auto simp: record_at_def split: option.splits json.splits)
  then have "value_at (Suc (next_addr t)) t v = Some (JObj r)"
    using k by (rule value_at_mono) (use n in simp)
  then show ?thesis by (simp add: record_at_def)
qed

lemma receiver_at_object:
  assumes "cells s a = Some \<lparr>is_array = False, props = ps, link = l\<rparr>"
    and "list_all2 (same (next_addr s) s) ps kvs"
    and "same_proto (next_addr s) s l pr"
  shows "receiver_at s (Ref a) = Some (Object_receiver kvs pr)"
proof -
  have "proto_at s l = Some pr"
    using assms(3) by (auto simp: proto_at_def same_proto_def split: link.splits prototype.splits)
  moreover have "zip (map fst ps) (map snd kvs) = kvs"
    using same_keys [OF assms(2)] by (rule zip_keys_values)
  ultimately show ?thesis
    using assms(1) same_values [OF assms(2)] by (simp add: receiver_at_def)
qed

lemma receiver_at_record:
  "receiver_at (snd (store_value (JObj r) empty_store)) (fst (store_value (JObj r) empty_store))
     = Some (Object_receiver r Object_prototype)"
proof -
  from load_record(1) [of r] obtain a ps where
    "fst (store_value (JObj r) empty_store) = Ref a"
    "cells (snd (store_value (JObj r) empty_store)) a
       = Some \<lparr>is_array = False, props = ps, link = Builtin\<rparr>"
    "list_all2 (same (next_addr (snd (store_value (JObj r) empty_store)))
                  (snd (store_value (JObj r) empty_store))) ps r"
    by blast
  then show ?thesis
    using receiver_at_object [of _ a ps Builtin r Object_prototype]
    by (simp add: same_proto_def del: store_value.simps)
qed

lemma receiver_at_copy:
  fixes r :: jobject
  defines "l \<equiv> store_value (JObj r) empty_store"
  defines "c \<equiv> objCopy_store (snd l) (fst l)"
  shows "receiver_at (snd c) (fst c) = Some (objCopy (JObj r))"
    and "record_at (snd c) (fst l) = Some r"
proof -
  from load_record(1) [of r] obtain a ps where a: "fst l = Ref a"
    and ob: "cells (snd l) a = Some \<lparr>is_array = False, props = ps, link = Builtin\<rparr>"
    and ps: "list_all2 (same (next_addr (snd l)) (snd l)) ps r"
    unfolding l_def by blast
  have fr: "fresh_above (snd l)" unfolding l_def by (rule load_record(2))
  let ?c = "copy_props_store ps ([], Builtin)"
  let ?d = "copy_props r ([], Object_prototype)"
  let ?ob = "\<lparr>is_array = False, props = fst ?c, link = snd ?c\<rparr>"
  have c: "c = (Ref (fst (alloc ?ob (snd l))), snd (alloc ?ob (snd l)))"
    using a ob by (simp add: c_def objCopy_store_def Let_def)
  have rel: "list_all2 (same (next_addr (snd l)) (snd l)) (fst ?c) (fst ?d)"
    "same_proto (next_addr (snd l)) (snd l) (snd ?c) (snd ?d)"
    using copy_props_same [OF ps, of "([], Builtin)" "([], Object_prototype)"]
    by (simp_all add: same_proto_def)
  have k: "kept_in (snd l) (snd c)" and n: "next_addr (snd l) \<le> next_addr (snd c)"
    using alloc_props(1,4) [OF fr, of ?ob] c by simp_all
  have "list_all2 (same (next_addr (snd c)) (snd c)) (fst ?c) (fst ?d)"
    using rel(1) k n by (rule same_mono)
  moreover have "same_proto (next_addr (snd c)) (snd c) (snd ?c) (snd ?d)"
    using rel(2) k n by (rule same_proto_mono)
  moreover have "cells (snd c) (fst (alloc ?ob (snd l))) = Some ?ob"
    using alloc_props(3) [OF fr, of ?ob] c by simp
  ultimately have "receiver_at (snd c) (Ref (fst (alloc ?ob (snd l))))
                     = Some (Object_receiver (fst ?d) (snd ?d))"
    by (intro receiver_at_object)
  then show "receiver_at (snd c) (fst c) = Some (objCopy (JObj r))"
    using c by simp
  have "record_at (snd l) (fst l) = Some r" unfolding l_def by (rule load_record(3))
  then show "record_at (snd c) (fst l) = Some r"
    using k n by (rule record_at_mono)
qed

lemma conds_loop_lift:
  "receiver_at s c = Some x \<Longrightarrow> conds_loop (map lift ps) s c = (run_conds ps x, s)"
  by (induction ps) (auto simp: lift_def split: sum.splits)

text \<open>
  For conditions that assign nothing, \<^verbatim>\<open>filterRecord\<close> and \<^verbatim>\<open>handleLogLine\<close> on the store do
  what \<open>filterRecord\<close> and \<open>handleLogLine\<close> above do, and the record is left as it was
  parsed.
\<close>

lemma filterRecord_store_lift:
  "filterRecord_store pf r opts (map_option (map lift) (condFuncs opts))
       (map_option (map lift) (condVm opts))
     = (filterRecord pf r opts, Some r)"
proof (cases "case opt_level opts of None \<Rightarrow> False
              | Some n \<Rightarrow> n \<noteq> 0 \<and> js_lt_number pf (field r ''level'') n")
  case True
  then show ?thesis by (simp add: filterRecord_store_def filterRecord_def)
next
  case False
  define l where "l = store_value (JObj r) empty_store"
  define c where "c = objCopy_store (snd l) (fst l)"
  show ?thesis
  proof (cases "condFuncs opts")
    case (Some fs)
    have "conds_loop (map lift fs) (snd c) (fst c) = (run_conds fs (objCopy (JObj r)), snd c)"
      unfolding c_def l_def by (rule conds_loop_lift) (rule receiver_at_copy(1))
    moreover have "record_at (snd c) (fst l) = Some r"
      unfolding c_def l_def by (rule receiver_at_copy(2))
    ultimately show ?thesis
      using False Some unfolding filterRecord_store_def filterRecord_def l_def c_def
      by (simp add: Let_def del: store_value.simps objCopy.simps)
  next
    case None
    show ?thesis
    proof (cases "condVm opts")
      case (Some vs)
      have "conds_loop (map lift vs) (snd l) (fst l)
              = (run_conds vs (Object_receiver r Object_prototype), snd l)"
        unfolding l_def by (rule conds_loop_lift) (rule receiver_at_record)
      moreover have "record_at (snd l) (fst l) = Some r"
        unfolding l_def by (rule load_record(3))
      ultimately show ?thesis
        using False None Some unfolding filterRecord_store_def filterRecord_def l_def
        by (simp add: Let_def del: store_value.simps)
    next
      case N2: None
      with False None show ?thesis
        by (simp add: filterRecord_store_def filterRecord_def)
    qed
  qed
qed

lemma handleLogLine_store_lift:
  "handleLogLine_store pf file ln opts (map_option (map lift) (condFuncs opts))
       (map_option (map lift) (condVm opts)) stylize st
     = Some (handleLogLine pf file ln opts stylize st)"
  unfolding handleLogLine_store_def handleLogLine_def filterRecord_store_lift
  by (simp split: option.splits sum.splits)

text \<open>
  On the path of \<^verbatim>\<open>opts.condFuncs\<close> the record stays as it was parsed, whatever the
  conditions assign to the top level of their context; the condition \<^verbatim>\<open>this.msg =
  'changed'\<close> is one of these.
\<close>

lemma conds_loop_writes_this_only:
  assumes "\<forall>p\<in>set ps. writes_this_only p" and "cells s0 a = None"
    and "kept_in s0 s" and "next_addr s0 \<le> next_addr s"
  shows "kept_in s0 (snd (conds_loop ps s (Ref a)))
         \<and> next_addr s0 \<le> next_addr (snd (conds_loop ps s (Ref a)))"
  using assms
proof (induction ps arbitrary: s)
  case Nil
  then show ?case by simp
next
  case (Cons p ps)
  let ?t = "snd (p s (Ref a))"
  from Cons.prems(1) have w: "writes_this_only p" by simp
  have n: "next_addr s0 \<le> next_addr ?t"
    using w Cons.prems(4) unfolding writes_this_only_def by (meson le_trans)
  have k: "kept_in s0 ?t"
    unfolding kept_in_def
  proof (intro allI impI)
    fix b ob assume b: "cells s0 b = Some ob"
    with Cons.prems(2) have "b \<noteq> a" by auto
    moreover from b Cons.prems(3) have "cells s b = Some ob" by (simp add: kept_in_def)
    ultimately show "cells ?t b = Some ob"
      using w unfolding writes_this_only_def by blast
  qed
  have rest: "kept_in s0 (snd (conds_loop ps ?t (Ref a)))
              \<and> next_addr s0 \<le> next_addr (snd (conds_loop ps ?t (Ref a)))"
    using Cons.IH [OF _ Cons.prems(2) k n] Cons.prems(1) by simp
  show ?case
  proof (cases "fst (p s (Ref a))")
    case (Inl e)
    with k n show ?thesis by simp
  next
    case (Inr pass)
    with k n rest show ?thesis by simp
  qed
qed

lemma condFuncs_keep_the_record:
  assumes "\<forall>p\<in>set fs. writes_this_only p"
    and "case opt_level opts of None \<Rightarrow> True
         | Some n \<Rightarrow> n = 0 \<or> \<not> js_lt_number pf (field r ''level'') n"
  shows "snd (filterRecord_store pf r opts (Some fs) cv) = Some r"
proof -
  define l where "l = store_value (JObj r) empty_store"
  from load_record(1) [of r] obtain a ps where a: "fst l = Ref a"
    and ob: "cells (snd l) a = Some \<lparr>is_array = False, props = ps, link = Builtin\<rparr>"
    unfolding l_def by blast
  have fr: "fresh_above (snd l)" unfolding l_def by (rule load_record(2))
  define cell where
    "cell = \<lparr>is_array = False, props = fst (copy_props_store ps ([], Builtin)),
             link = snd (copy_props_store ps ([], Builtin))\<rparr>"
  define t where "t = alloc cell (snd l)"
  have copy: "objCopy_store (snd l) (fst l) = (Ref (fst t), snd t)"
    using a ob by (simp add: objCopy_store_def Let_def t_def cell_def)
  have k: "kept_in (snd l) (snd t)" and n: "next_addr (snd t) = Suc (next_addr (snd l))"
    and at: "fst t = next_addr (snd l)"
    unfolding t_def using fr by (rule alloc_props)+
  have none: "cells (snd l) (fst t) = None"
    using fr at by (simp add: fresh_above_def)
  have le: "next_addr (snd l) \<le> next_addr (snd t)"
    using n by simp
  define u where "u = snd (conds_loop fs (snd t) (Ref (fst t)))"
  have "kept_in (snd l) u \<and> next_addr (snd l) \<le> next_addr u"
    unfolding u_def using assms(1) none k le by (rule conds_loop_writes_this_only)
  moreover have "record_at (snd l) (fst l) = Some r"
    unfolding l_def by (rule load_record(3))
  ultimately have rd: "record_at u (fst l) = Some r"
    using record_at_mono [of "snd l" "fst l" r u] by blast
  have lvl: "\<not> (case opt_level opts of None \<Rightarrow> False
               | Some n \<Rightarrow> n \<noteq> 0 \<and> js_lt_number pf (field r ''level'') n)"
    using assms(2) by (auto split: option.splits)
  have "filterRecord_store pf r opts (Some fs) cv
          = (fst (conds_loop fs (snd t) (Ref (fst t))), record_at u (fst l))"
    unfolding filterRecord_store_def u_def using lvl copy
    by (simp add: Let_def l_def del: store_value.simps)
  with rd show ?thesis by simp
qed

lemma set_msg_writes_this_only: "writes_this_only set_msg"
  by (auto simp: writes_this_only_def set_msg_def set_own_def split: option.splits)

text \<open>
  C10 fails on the path of \<^verbatim>\<open>opts.condVm\<close>. The line of \<open>rec_one\<close> comes from the standard
  input, the output mode is the long one, and the one condition is \<^verbatim>\<open>this.msg = 'changed'\<close>.
  As a condition of \<^verbatim>\<open>opts.condFuncs\<close> it is called on the copy: the record passed to the
  renderer has the message \<^verbatim>\<open>one\<close>, and so has the output. As a condition of
  \<^verbatim>\<open>opts.condVm\<close> it runs on the record: the record passed to the renderer has the message
  \<^verbatim>\<open>changed\<close>, and so has the output.
\<close>

theorem condVm_runs_on_the_record:
  "snd (filterRecord_store demo_pf rec_one demo_opts (Some [set_msg]) None) = Some rec_one
   \<and> map_option out
       (handleLogLine_store demo_pf None (line_of rec_one) demo_opts (Some [set_msg]) None
          (stylize_of demo_opts) (main_state []))
     = Some [''[1970-01-01T00:00:01.000Z]  INFO: app/123 on host: one'' @ [LF]]
   \<and> snd (filterRecord_store demo_pf rec_one demo_opts None (Some [set_msg])) = Some rec_changed
   \<and> map_option out
       (handleLogLine_store demo_pf None (line_of rec_one) demo_opts None (Some [set_msg])
          (stylize_of demo_opts) (main_state []))
     = Some [''[1970-01-01T00:00:01.000Z]  INFO: app/123 on host: changed'' @ [LF]]"
  by code_simp

section \<open>The bunyan mode and reading its lines back\<close>









































end
